theory Spec2Isabelle
  imports Main "HOL-Library.Sublist" "HOL-Library.Signed_Division"
begin

section \<open>cargame: the data model of cargame.c and config.h\<close>

text \<open>
  The program keeps its whole session in five global structs (\<open>car\<close>, \<open>curses\<close>,
  \<open>game\<close>, \<open>goal\<close>, \<open>timer\<close>). Each struct is a record, the globals together are the
  record \<open>state\<close>, and every C function is a function on that state (or on the one
  struct it touches). C \<open>int\<close>, \<open>long\<close> and \<open>time_t\<close> values are modelled as \<open>int\<close>:
  the model agrees with the program wherever the C arithmetic does not overflow (signed
  overflow is undefined in C). Where the arithmetic of the source can overflow on a
  timer with fields that are not negative, in the carry of \<open>timer_slowdown\<close>, the model
  writes out the two's complement wrap-around of the 64-bit \<open>long\<close>, which is what the
  compiled program does. Wide characters are their code points.
\<close>

type_synonym wchar_t = nat
type_synonym wint_t = nat

text \<open>A \<open>cchar_t\<close> as \<open>setcchar\<close> builds it: the character and the number of its color pair.\<close>

type_synonym cchar_t = "wchar_t \<times> int"

datatype Direction = LEFT | RIGHT | UP | DOWN

record Pos =
  pos_x :: int
  pos_y :: int

record Car =
  car_car :: cchar_t
  car_left :: cchar_t
  car_right :: cchar_t
  car_up :: cchar_t
  car_down :: cchar_t
  car_start_direction :: Direction
  car_direction :: Direction
  car_pos :: Pos
  car_start_pos :: Pos
  car_old_pos :: Pos

text \<open>Of \<open>Curses\<close> the window handles are left out: the windows are named by \<open>window\<close> below.\<close>

record Curses =
  curses_mscl_attrs :: int
  curses_cols :: int
  curses_lines :: int

text \<open>
  \<open>game.field\<close> is the list of the level's rows, each row the wide string up to its
  terminator. The members \<open>level_file\<close>, \<open>goal_pos\<close> and \<open>start_pos\<close> of \<open>Game\<close> are
  never read by the functions modelled here and are left out.
\<close>

record Game =
  game_field :: "wchar_t list list"
  game_borders :: bool
  game_need_resize :: int
  game_need_terminate :: int
  game_cols :: int
  game_lines :: int
  game_x_offset :: int
  game_y_offset :: int

record Goal =
  goal_goal :: cchar_t
  goal_pos :: Pos

record timespec =
  tv_sec :: int
  tv_nsec :: int

record itimerspec =
  it_value :: timespec
  it_interval :: timespec

text \<open>Of \<open>Timer\<close> the opaque handle \<open>id\<close> is left out.\<close>

record Timer =
  timer_its :: itimerspec
  timer_finished :: int

subsection \<open>config.h\<close>

definition chars_car_left :: wchar_t where "chars_car_left = 8592"
definition chars_car_right :: wchar_t where "chars_car_right = 8594"
definition chars_car_up :: wchar_t where "chars_car_up = 8593"
definition chars_car_down :: wchar_t where "chars_car_down = 8595"
definition chars_goal :: wchar_t where "chars_goal = 120"
definition chars_start :: wchar_t where "chars_start = 64"

definition speed_step_width :: int where "speed_step_width = 10000000"
definition start_speed :: int where "start_speed = 250000000"
definition default_borders :: bool where "default_borders = True"

text \<open>\<open>LONG_MAX\<close> and \<open>INT_MAX\<close> of \<open>limits.h\<close> on an LP64 platform, \<open>BUFSIZ\<close> of glibc.\<close>

definition LONG_MAX :: int where "LONG_MAX = 9223372036854775807"
definition INT_MAX :: int where "INT_MAX = 2147483647"
definition BUFSIZ :: nat where "BUFSIZ = 8192"

subsection \<open>The terminal: what curses and the kernel are asked, and what they answer\<close>

datatype window = Mainwin | Gamewin | Msclwin

text \<open>
  Every call into curses that the modelled functions make is recorded, in order, in the
  \<open>calls\<close> of the state. Coordinates are given as curses takes them: line first.
\<close>

datatype curses_call =
    Mvwadd_wch window int int cchar_t
  | Mvwaddch window int int wchar_t
  | Mvwaddwstr window int int "wchar_t list"
  | Mvwinnwstr window int int
  | Wmove window int int
  | Waddnwstr window "wchar_t list" int
  | Wrefresh window
  | Wclrtoeol window
  | Wnoutrefresh window
  | Doupdate
  | Endwin
  | Refresh
  | Wresize window int int
  | Delwin window
  | Newwin window int int int int
  | Wattron window int
  | Keypad window
  | Werase window
  | Box window
  | Wget_wch window

datatype signal = SIGALRM | SIGCONT | SIGINT | SIGTERM

datatype errno = EINTR | EOTHER

text \<open>
  One call of \<open>wget_wch\<close>: the signals whose handler ran while it blocked, and what it
  returned: \<open>KEY_CODE_YES\<close> with a key code, \<open>OK\<close> with a character, or \<open>ERR\<close> with
  \<open>errno\<close> and the value it stored in \<open>*wch\<close>, if it stored one.
\<close>

datatype wget_ret = Ret_key_code wint_t | Ret_ok wint_t | Ret_err errno "wint_t option"

record wget_event =
  ev_signals :: "signal list"
  ev_ret :: wget_ret

text \<open>
  The level file as \<open>fgetws\<close> sees it: its wide characters (none of them the null
  character), and whether the stream ends in a read error instead of the end of the file.
\<close>

record level_file =
  lf_chars :: "wchar_t list"
  lf_error :: bool

text \<open>
  What the program cannot decide itself is asked of the environment: the terminal size
  \<open>COLS\<close>, \<open>LINES\<close> that curses reports, whether \<open>newwin\<close> and \<open>timer_settime\<close>
  and the other timer calls succeed, what \<open>mvwinnwstr\<close> reads at a cell (\<open>None\<close> is \<open>ERR\<close>), the column width
  \<open>wcwidth\<close> of a character (\<open>-1\<close>: not printable), whether \<open>malloc\<close> and
  \<open>realloc\<close> succeed, what \<open>fopen\<close> of the level file gives (\<open>None\<close>: it fails), and
  the indeterminate initial value of an uninitialised \<open>wint_t\<close>.
\<close>

record env =
  env_COLS :: int
  env_LINES :: int
  env_newwin_ok :: bool
  env_timer_create_ok :: bool
  env_timer_settime_ok :: "itimerspec \<Rightarrow> bool"
  env_timer_delete_ok :: bool
  env_mvwinnwstr :: "int \<Rightarrow> int \<Rightarrow> wchar_t option"
  env_wcwidth :: "wchar_t \<Rightarrow> int"
  env_alloc_ok :: bool
  env_fopen :: "level_file option"
  env_uninit_wch :: wint_t

record state =
  car :: Car
  curses :: Curses
  game :: Game
  goal :: Goal
  timer :: Timer
  pending :: "wget_event list"
  calls :: "curses_call list"

text \<open>
  How a function can stop instead of returning: \<open>DIE\<close> (cleanup and
  \<open>exit(EXIT_FAILURE)\<close>) with the reason, or a blocking read of the keyboard with no
  input left.
\<close>

datatype die =
    Die_strerror
  | Die_terminal_too_small
  | Die_car_out_of_screen
  | Die_resize_failed
  | Die_wcswidth
  | Die_goal_count nat
  | Die_start_count nat
  | Die_level_too_big
  | Die_read_error
  | Die_no_lines
  | Die_null

datatype stop = Exit die | Blocked

definition KEY_DOWN :: wint_t where "KEY_DOWN = 258"
definition KEY_UP :: wint_t where "KEY_UP = 259"
definition KEY_LEFT :: wint_t where "KEY_LEFT = 260"
definition KEY_RIGHT :: wint_t where "KEY_RIGHT = 261"
definition KEY_RESIZE :: wint_t where "KEY_RESIZE = 410"

definition GAMEWIN_LINES :: "state \<Rightarrow> int" where
  "GAMEWIN_LINES s =
     (if game_borders (game s) then curses_lines (curses s) - 3 else curses_lines (curses s) - 1)"

definition GAMEWIN_COLS :: "state \<Rightarrow> int" where
  "GAMEWIN_COLS s =
     (if game_borders (game s) then curses_cols (curses s) - 2 else curses_cols (curses s))"

section \<open>The car\<close>

definition set_car_pos :: "Pos \<Rightarrow> state \<Rightarrow> state" where
  "set_car_pos p s = s\<lparr>car := (car s)\<lparr>car_pos := p\<rparr>\<rparr>"

definition car_go_down :: "state \<Rightarrow> state" where
  "car_go_down s =
     (let p = car_pos (car s) in
      if \<not> game_borders (game s)
      then set_car_pos (p\<lparr>pos_y := (if pos_y p + 1 = GAMEWIN_LINES s then 0 else pos_y p + 1)\<rparr>) s
      else set_car_pos (p\<lparr>pos_y := pos_y p + 1\<rparr>) s)"

definition car_go_left :: "state \<Rightarrow> state" where
  "car_go_left s =
     (let p = car_pos (car s) in
      if \<not> game_borders (game s)
      then set_car_pos (p\<lparr>pos_x := (if pos_x p \<noteq> 0 then pos_x p - 1 else GAMEWIN_COLS s - 1)\<rparr>) s
      else set_car_pos (p\<lparr>pos_x := pos_x p - 1\<rparr>) s)"

definition car_go_right :: "state \<Rightarrow> state" where
  "car_go_right s =
     (let p = car_pos (car s) in
      if \<not> game_borders (game s)
      then set_car_pos (p\<lparr>pos_x := (if pos_x p + 1 = GAMEWIN_COLS s then 0 else pos_x p + 1)\<rparr>) s
      else set_car_pos (p\<lparr>pos_x := pos_x p + 1\<rparr>) s)"

definition car_go_up :: "state \<Rightarrow> state" where
  "car_go_up s =
     (let p = car_pos (car s) in
      if \<not> game_borders (game s)
      then set_car_pos (p\<lparr>pos_y := (if pos_y p \<noteq> 0 then pos_y p - 1 else GAMEWIN_LINES s - 1)\<rparr>) s
      else set_car_pos (p\<lparr>pos_y := pos_y p - 1\<rparr>) s)"

definition car_move :: "state \<Rightarrow> state" where
  "car_move s =
     (case car_direction (car s) of
        DOWN \<Rightarrow> car_go_down s
      | LEFT \<Rightarrow> car_go_left s
      | RIGHT \<Rightarrow> car_go_right s
      | UP \<Rightarrow> car_go_up s)"

definition car_position_changed :: "state \<Rightarrow> bool" where
  "car_position_changed s =
     (pos_x (car_pos (car s)) \<noteq> pos_x (car_old_pos (car s))
      \<or> pos_y (car_pos (car s)) \<noteq> pos_y (car_old_pos (car s)))"

definition car_set_direction :: "Direction \<Rightarrow> Car \<Rightarrow> Car" where
  "car_set_direction d c =
     (case d of
        DOWN \<Rightarrow> c\<lparr>car_car := car_down c\<rparr>
      | LEFT \<Rightarrow> c\<lparr>car_car := car_left c\<rparr>
      | RIGHT \<Rightarrow> c\<lparr>car_car := car_right c\<rparr>
      | UP \<Rightarrow> c\<lparr>car_car := car_up c\<rparr>)"

definition car_reset :: "Car \<Rightarrow> Car" where
  "car_reset c =
     (let c1 = c\<lparr>car_pos := car_start_pos c, car_old_pos := car_start_pos c\<rparr>;
          c2 = c1\<lparr>car_direction := car_start_direction c1\<rparr>
      in car_set_direction (car_direction c2) c2)"

definition car_turn_left :: "Car \<Rightarrow> Car" where
  "car_turn_left c =
     (let c1 = (case car_direction c of
                  DOWN \<Rightarrow> c\<lparr>car_direction := RIGHT\<rparr>
                | LEFT \<Rightarrow> c\<lparr>car_direction := DOWN\<rparr>
                | RIGHT \<Rightarrow> c\<lparr>car_direction := UP\<rparr>
                | UP \<Rightarrow> c\<lparr>car_direction := LEFT\<rparr>)
      in car_set_direction (car_direction c1) c1)"

definition car_turn_right :: "Car \<Rightarrow> Car" where
  "car_turn_right c =
     (let c1 = (case car_direction c of
                  DOWN \<Rightarrow> c\<lparr>car_direction := LEFT\<rparr>
                | LEFT \<Rightarrow> c\<lparr>car_direction := UP\<rparr>
                | RIGHT \<Rightarrow> c\<lparr>car_direction := DOWN\<rparr>
                | UP \<Rightarrow> c\<lparr>car_direction := RIGHT\<rparr>)
      in car_set_direction (car_direction c1) c1)"

section \<open>The tick timer\<close>

text \<open>
  \<open>timer_settime\<close> is the kernel's: the environment says whether it accepts the new
  \<open>itimerspec\<close>; if it does not, the program dies with \<open>strerror(errno)\<close>.
\<close>

definition timer_settime :: "env \<Rightarrow> Timer \<Rightarrow> stop + Timer" where
  "timer_settime e t =
     (if env_timer_settime_ok e (timer_its t) then Inr t else Inl (Exit Die_strerror))"

definition timer_set :: "env \<Rightarrow> int \<Rightarrow> Timer \<Rightarrow> stop + Timer" where
  "timer_set e nanosec t =
     (let its0 = timer_its t;
          its1 = its0\<lparr>it_value := (it_value its0)\<lparr>tv_nsec := nanosec\<rparr>\<rparr>;
          its2 = its1\<lparr>it_interval := (it_interval its1)\<lparr>tv_nsec := nanosec\<rparr>\<rparr>
      in timer_settime e (t\<lparr>timer_its := its2\<rparr>))"

definition timer_accelerate :: "env \<Rightarrow> Timer \<Rightarrow> stop + Timer" where
  "timer_accelerate e t =
     (let its0 = timer_its t; v = it_value its0 in
      if tv_sec (it_interval its0) = 0 \<and> tv_nsec (it_interval its0) = 0
      then timer_set e start_speed t
      else if tv_nsec v \<ge> speed_step_width
      then (let v1 = v\<lparr>tv_nsec := tv_nsec v - speed_step_width\<rparr>
            in timer_settime e (t\<lparr>timer_its := \<lparr>it_value = v1, it_interval = v1\<rparr>\<rparr>))
      else if tv_sec v = 0
      then Inr t
      else (let v1 = v\<lparr>tv_sec := tv_sec v - 1,
                         tv_nsec := LONG_MAX - (speed_step_width - tv_nsec v)\<rparr>
            in timer_settime e (t\<lparr>timer_its := \<lparr>it_value = v1, it_interval = v1\<rparr>\<rparr>)))"

definition timer_reset :: "env \<Rightarrow> Timer \<Rightarrow> stop + Timer" where
  "timer_reset e t =
     timer_settime e
       (t\<lparr>timer_its := \<lparr>it_value = \<lparr>tv_sec = 0, tv_nsec = 0\<rparr>,
                         it_interval = \<lparr>tv_sec = 0, tv_nsec = 0\<rparr>\<rparr>\<rparr>)"

text \<open>
  A \<open>long\<close> (and a \<open>time_t\<close>) has 64 bits: the value that an arithmetic result takes
  when it is stored, wrapping around in two's complement.
\<close>

definition wrap_long :: "int \<Rightarrow> int" where
  "wrap_long x = (x + 2 ^ 63) mod 2 ^ 64 - 2 ^ 63"

text \<open>
  In \<open>timer_slowdown\<close> the first addition cannot overflow: it is made only when
  \<open>tv_nsec \<le> LONG_MAX - speed_step_width\<close>. In the carry branch \<open>tv_nsec\<close> is larger
  than that, so \<open>LONG_MAX - tv_nsec\<close> and the step less it are exact, and the sum and
  \<open>tv_sec++\<close> can overflow.
\<close>

definition timer_slowdown :: "env \<Rightarrow> Timer \<Rightarrow> stop + Timer" where
  "timer_slowdown e t =
     (let its0 = timer_its t; v = it_value its0 in
      if tv_sec (it_interval its0) = 0 \<and> tv_nsec (it_interval its0) = 0
      then Inr t
      else if LONG_MAX - speed_step_width \<ge> tv_nsec v
      then (let v1 = v\<lparr>tv_nsec := tv_nsec v + speed_step_width\<rparr>
            in timer_settime e (t\<lparr>timer_its := \<lparr>it_value = v1, it_interval = v1\<rparr>\<rparr>))
      else (let v1 = v\<lparr>tv_sec := wrap_long (tv_sec v + 1),
                         tv_nsec := wrap_long
                                      (tv_nsec v + (speed_step_width - (LONG_MAX - tv_nsec v)))\<rparr>
            in timer_settime e (t\<lparr>timer_its := \<lparr>it_value = v1, it_interval = v1\<rparr>\<rparr>)))"

definition timer_start :: "env \<Rightarrow> Timer \<Rightarrow> stop + Timer" where
  "timer_start e t =
     (if \<not> env_timer_create_ok e then Inl (Exit Die_strerror) else timer_settime e t)"

definition timer_end :: "env \<Rightarrow> Timer \<Rightarrow> stop + Timer" where
  "timer_end e t = (if \<not> env_timer_delete_ok e then Inl (Exit Die_strerror) else Inr t)"

section \<open>The screen\<close>

definition emit :: "curses_call list \<Rightarrow> state \<Rightarrow> state" where
  "emit cs s = s\<lparr>calls := calls s @ cs\<rparr>"

definition wstr :: "string \<Rightarrow> wchar_t list" where
  "wstr cs = map of_char cs"

definition mscl :: "wchar_t list \<Rightarrow> state \<Rightarrow> state" where
  "mscl msg s =
     emit [Wmove Msclwin 0 0, Waddnwstr Msclwin msg (curses_cols (curses s)), Wrefresh Msclwin,
           Wmove Gamewin (pos_y (car_pos (car s))) (pos_x (car_pos (car s)))] s"

definition mscl_clear :: "state \<Rightarrow> state" where
  "mscl_clear s = emit [Wmove Msclwin 0 0, Wclrtoeol Msclwin, Wrefresh Msclwin] s"

definition goal_place :: "state \<Rightarrow> state" where
  "goal_place s =
     emit [Mvwadd_wch Gamewin (pos_y (goal_pos (goal s))) (pos_x (goal_pos (goal s)))
             (goal_goal (goal s))] s"

definition game_update_screen :: "state \<Rightarrow> state" where
  "game_update_screen s =
     (let s1 = emit [Mvwadd_wch Gamewin (pos_y (car_pos (car s))) (pos_x (car_pos (car s)))
                       (car_car (car s))] s;
          s2 = (if car_position_changed s1
                then (emit [Mvwaddch Gamewin (pos_y (car_old_pos (car s1)))
                              (pos_x (car_old_pos (car s1))) 32] s1)
                       \<lparr>car := (car s1)\<lparr>car_old_pos := car_pos (car s1)\<rparr>\<rparr>
                else s1)
      in emit [Wnoutrefresh Gamewin, Wnoutrefresh Mainwin, Doupdate] s2)"

text \<open>
  \<open>level_draw\<close> walks the rows \<open>0 .. game.lines - 1\<close> of \<open>game.field\<close>; the program
  keeps \<open>game.lines\<close> equal to the number of rows.
\<close>

definition level_draw :: "state \<Rightarrow> state" where
  "level_draw s =
     emit (map (\<lambda>i. Mvwaddwstr Gamewin (game_y_offset (game s) + int i) (game_x_offset (game s))
                       (game_field (game s) ! i))
               [0 ..< nat (game_lines (game s))]) s"

definition curses_check_size :: "state \<Rightarrow> stop + state" where
  "curses_check_size s =
     (if game_cols (game s) > GAMEWIN_COLS s \<or> game_lines (game s) > GAMEWIN_LINES s
      then Inl (Exit Die_terminal_too_small)
      else if pos_x (car_pos (car s)) \<ge> GAMEWIN_COLS s \<or> pos_y (car_pos (car s)) \<ge> GAMEWIN_COLS s
      then Inl (Exit Die_car_out_of_screen)
      else Inr s)"

text \<open>
  \<open>curses_set_windows\<close> after \<open>curses_setup\<close> has made the windows: \<open>curses.msclwin\<close>
  is never null then, so it is always deleted first.
\<close>

definition curses_set_windows :: "env \<Rightarrow> state \<Rightarrow> stop + state" where
  "curses_set_windows e s =
     (let s1 = emit [Delwin Msclwin,
                     Newwin Msclwin 1 (curses_cols (curses s)) (curses_lines (curses s) - 1) 0] s
      in if \<not> env_newwin_ok e then Inl (Exit Die_resize_failed)
         else Inr (emit ([Wattron Msclwin (curses_mscl_attrs (curses s1)), Keypad Gamewin,
                          Werase Mainwin] @ (if game_borders (game s1) then [Box Mainwin] else []))
                     s1))"

definition curses_resize :: "env \<Rightarrow> state \<Rightarrow> stop + state" where
  "curses_resize e s =
     (let s1 = emit [Endwin, Refresh] s;
          s2 = s1\<lparr>curses := (curses s1)\<lparr>curses_cols := env_COLS e, curses_lines := env_LINES e\<rparr>\<rparr>
      in case curses_check_size s2 of
           Inl x \<Rightarrow> Inl x
         | Inr s3 \<Rightarrow>
             curses_set_windows e
               (emit [Wresize Gamewin (GAMEWIN_LINES s3) (GAMEWIN_COLS s3),
                      Wresize Mainwin (curses_lines (curses s3) - 1) (curses_cols (curses s3))] s3))"

definition shift_pos :: "int \<Rightarrow> int \<Rightarrow> Pos \<Rightarrow> Pos" where
  "shift_pos dx dy p = p\<lparr>pos_x := pos_x p + dx, pos_y := pos_y p + dy\<rparr>"

text \<open>C's \<open>/\<close> truncates towards zero: \<open>sdiv\<close>.\<close>

definition level_resize :: "state \<Rightarrow> state" where
  "level_resize s =
     (let x_offset = (GAMEWIN_COLS s - game_cols (game s)) sdiv 2;
          y_offset = (GAMEWIN_LINES s - game_lines (game s)) sdiv 2;
          delta_x = x_offset - game_x_offset (game s);
          delta_y = y_offset - game_y_offset (game s);
          s1 = s\<lparr>goal := (goal s)\<lparr>goal_pos := shift_pos delta_x delta_y (goal_pos (goal s))\<rparr>\<rparr>;
          s2 = s1\<lparr>car := (car s1)\<lparr>car_start_pos := shift_pos delta_x delta_y (car_start_pos (car s1)),
                                   car_pos := shift_pos delta_x delta_y (car_pos (car s1)),
                                   car_old_pos := shift_pos delta_x delta_y (car_old_pos (car s1))\<rparr>\<rparr>;
          s3 = s2\<lparr>game := (game s2)\<lparr>game_x_offset := x_offset, game_y_offset := y_offset\<rparr>\<rparr>
      in level_draw s3)"

definition game_resize :: "env \<Rightarrow> state \<Rightarrow> stop + state" where
  "game_resize e s =
     (case curses_resize e s of
        Inl x \<Rightarrow> Inl x
      | Inr s1 \<Rightarrow> Inr (game_update_screen (goal_place (level_resize s1))))"

section \<open>Signals and the keyboard\<close>

definition sig_hdl :: "signal \<Rightarrow> state \<Rightarrow> state" where
  "sig_hdl sig s =
     (case sig of
        SIGALRM \<Rightarrow> s\<lparr>timer := (timer s)\<lparr>timer_finished := 1\<rparr>\<rparr>
      | SIGCONT \<Rightarrow> s\<lparr>game := (game s)\<lparr>game_need_resize := 1\<rparr>\<rparr>
      | SIGINT \<Rightarrow> s\<lparr>game := (game s)\<lparr>game_need_terminate := 1\<rparr>\<rparr>
      | SIGTERM \<Rightarrow> s\<lparr>game := (game s)\<lparr>game_need_terminate := 1\<rparr>\<rparr>)"

text \<open>The return value of \<open>wget_wch\<close>.\<close>

datatype wget_code = ERR | OK | KEY_CODE_YES

lemma pending_emit [simp]: "pending (emit cs s) = pending s"
  by (simp add: emit_def)

lemma pending_game_update_screen [simp]: "pending (game_update_screen s) = pending s"
  by (simp add: game_update_screen_def Let_def)

lemma pending_goal_place [simp]: "pending (goal_place s) = pending s"
  by (simp add: goal_place_def)

lemma pending_level_resize [simp]: "pending (level_resize s) = pending s"
  by (simp add: level_resize_def level_draw_def Let_def)

lemma pending_mscl [simp]: "pending (mscl msg s) = pending s"
  by (simp add: mscl_def)

lemma pending_mscl_clear [simp]: "pending (mscl_clear s) = pending s"
  by (simp add: mscl_clear_def)

lemma pending_sig_hdl [simp]: "pending (sig_hdl sig s) = pending s"
  by (cases sig) (simp_all add: sig_hdl_def)

lemma pending_fold_sig_hdl [simp]: "pending (fold sig_hdl sigs s) = pending s"
  by (induction sigs arbitrary: s) simp_all

lemma pending_curses_resize: "curses_resize e s = Inr s' \<Longrightarrow> pending s' = pending s"
  by (auto simp: curses_resize_def curses_check_size_def curses_set_windows_def Let_def
           split: if_splits sum.splits)

lemma pending_game_resize: "game_resize e s = Inr s' \<Longrightarrow> pending s' = pending s"
  by (auto simp: game_resize_def split: sum.splits dest: pending_curses_resize)

text \<open>
  \<open>curses_wgetch\<close>: the loop around \<open>wget_wch\<close>. Each round takes the next event
  from \<open>pending\<close>; with none left the read blocks.
\<close>

function curses_wgetch_loop ::
  "env \<Rightarrow> window \<Rightarrow> bool \<Rightarrow> wint_t \<Rightarrow> state \<Rightarrow> stop + (wget_code \<times> wint_t \<times> state)" where
  "curses_wgetch_loop e win mscl_used wch s =
     (case pending s of
        [] \<Rightarrow> Inl Blocked
      | ev # rest \<Rightarrow>
          (let s1 = fold sig_hdl (ev_signals ev) (emit [Wget_wch win] (s\<lparr>pending := rest\<rparr>)) in
           case ev_ret ev of
             Ret_key_code k \<Rightarrow>
               if k = KEY_RESIZE
               then (case game_resize e s1 of
                       Inl x \<Rightarrow> Inl x
                     | Inr s2 \<Rightarrow> curses_wgetch_loop e win mscl_used k s2)
               else Inr (KEY_CODE_YES, k, if mscl_used then mscl_clear s1 else s1)
           | Ret_ok c \<Rightarrow> Inr (OK, c, if mscl_used then mscl_clear s1 else s1)
           | Ret_err en stored \<Rightarrow>
               (let wch1 = (case stored of None \<Rightarrow> wch | Some v \<Rightarrow> v) in
                if en = EINTR
                then Inr (ERR, wch1, if mscl_used then mscl_clear s1 else s1)
                else curses_wgetch_loop e win True wch1
                       (mscl (wstr ''Input Error'') (mscl_clear s1)))))"
  by pat_completeness auto
termination
  by (relation "measure (\<lambda>(e, win, mscl_used, wch, s). length (pending s))")
     (auto dest: pending_game_resize)

definition curses_wgetch ::
  "env \<Rightarrow> window \<Rightarrow> wint_t \<Rightarrow> state \<Rightarrow> stop + (wget_code \<times> wint_t \<times> state)" where
  "curses_wgetch e win wch s = curses_wgetch_loop e win False wch s"

declare curses_wgetch_loop.simps [simp del]

lemma pending_curses_wgetch_loop:
  "curses_wgetch_loop e win mscl_used wch s = Inr (r, wch', s')
   \<Longrightarrow> length (pending s') < length (pending s)"
proof (induction e win mscl_used wch s rule: curses_wgetch_loop.induct)
  case (1 e win mscl_used wch s)
  show ?case
  proof (cases "pending s")
    case Nil
    with "1.prems" show ?thesis
      by (simp add: curses_wgetch_loop.simps [of e win mscl_used wch s])
  next
    case (Cons ev rest)
    let ?s1 = "fold sig_hdl (ev_signals ev) (emit [Wget_wch win] (s\<lparr>pending := rest\<rparr>))"
    have s1: "pending ?s1 = rest" by simp
    show ?thesis
    proof (cases "ev_ret ev")
      case (Ret_key_code k)
      show ?thesis
      proof (cases "k = KEY_RESIZE")
        case True
        from "1.prems" Cons Ret_key_code True obtain s2 where
          gr: "game_resize e ?s1 = Inr s2" and
          rec: "curses_wgetch_loop e win mscl_used k s2 = Inr (r, wch', s')"
          by (auto simp: curses_wgetch_loop.simps [of e win mscl_used wch s] Let_def
                   split: sum.splits)
        from "1.IH"(1) [OF Cons refl Ret_key_code True gr rec]
        have "length (pending s') < length (pending s2)" .
        moreover from pending_game_resize [OF gr] s1 have "pending s2 = rest" by simp
        ultimately show ?thesis using Cons by simp
      next
        case False
        with "1.prems" Cons Ret_key_code show ?thesis
          by (auto simp: curses_wgetch_loop.simps [of e win mscl_used wch s] Let_def)
      qed
    next
      case (Ret_ok c)
      with "1.prems" Cons show ?thesis
        by (auto simp: curses_wgetch_loop.simps [of e win mscl_used wch s] Let_def)
    next
      case (Ret_err en stored)
      show ?thesis
      proof (cases "en = EINTR")
        case True
        with "1.prems" Cons Ret_err show ?thesis
          by (auto simp: curses_wgetch_loop.simps [of e win mscl_used wch s] Let_def)
      next
        case False
        let ?w = "case stored of None \<Rightarrow> wch | Some v \<Rightarrow> v"
        from "1.prems" Cons Ret_err False have
          rec: "curses_wgetch_loop e win True ?w (mscl (wstr ''Input Error'') (mscl_clear ?s1))
                = Inr (r, wch', s')"
          by (simp add: curses_wgetch_loop.simps [of e win mscl_used wch s] Let_def)
        from "1.IH"(2) [OF Cons refl Ret_err refl False rec]
        show ?thesis using Cons by simp
      qed
    qed
  qed
qed

lemma pending_curses_wgetch:
  "curses_wgetch e win wch s = Inr (r, wch', s') \<Longrightarrow> length (pending s') < length (pending s)"
  unfolding curses_wgetch_def by (rule pending_curses_wgetch_loop)

section \<open>The game\<close>

text \<open>
  The loop of \<open>game_play_again\<close>:
  \<^verbatim>\<open>do { if (curses_wgetch(curses.msclwin, &wch) != OK) continue; } while (wch != L'y' && wch != L'n');\<close>
  A \<open>continue\<close> in a \<open>do\<close> loop goes to the loop condition, so the condition is
  tested on \<open>wch\<close> whatever \<open>curses_wgetch\<close> returned.
\<close>

function game_play_again_loop :: "env \<Rightarrow> wint_t \<Rightarrow> state \<Rightarrow> stop + (wint_t \<times> state)" where
  "game_play_again_loop e wch s =
     (case curses_wgetch e Msclwin wch s of
        Inl x \<Rightarrow> Inl x
      | Inr (r, wch1, s1) \<Rightarrow>
          if wch1 \<noteq> of_char CHR ''y'' \<and> wch1 \<noteq> of_char CHR ''n''
          then game_play_again_loop e wch1 s1
          else Inr (wch1, s1))"
  by pat_completeness auto
termination
  by (relation "measure (\<lambda>(e, wch, s). length (pending s))")
     (auto dest: pending_curses_wgetch)

declare game_play_again_loop.simps [simp del]

definition game_reset :: "env \<Rightarrow> state \<Rightarrow> stop + state" where
  "game_reset e s =
     (let s1 = emit [Mvwaddch Gamewin (pos_y (car_old_pos (car s))) (pos_x (car_old_pos (car s))) 32] s;
          s2 = s1\<lparr>car := car_reset (car s1)\<rparr>
      in case timer_reset e (timer s2) of
           Inl x \<Rightarrow> Inl x
         | Inr t \<Rightarrow> Inr (s2\<lparr>timer := t\<rparr>))"

definition game_play_again :: "env \<Rightarrow> wchar_t list \<Rightarrow> state \<Rightarrow> stop + (bool \<times> state)" where
  "game_play_again e msg s =
     (case game_play_again_loop e (env_uninit_wch e) (mscl msg s) of
        Inl x \<Rightarrow> Inl x
      | Inr (wch, s1) \<Rightarrow>
          (let s2 = mscl_clear s1 in
           if wch = of_char CHR ''y''
           then (case game_reset e s2 of Inl x \<Rightarrow> Inl x | Inr s3 \<Rightarrow> Inr (True, s3))
           else Inr (False, s2)))"

definition game_over_msg :: "wchar_t list" where
  "game_over_msg = wstr ''Game over. Play again? [y/n]''"

definition game_won_msg :: "wchar_t list" where
  "game_won_msg = wstr ''Won! Play again? [y/n]''"

definition game_over :: "env \<Rightarrow> state \<Rightarrow> stop + (bool \<times> state)" where
  "game_over e s =
     (case game_play_again e game_over_msg s of
        Inl x \<Rightarrow> Inl x
      | Inr (result, s1) \<Rightarrow> Inr (result, if result then goal_place s1 else s1))"

definition game_won :: "env \<Rightarrow> state \<Rightarrow> stop + (bool \<times> state)" where
  "game_won e s =
     (case game_play_again e game_won_msg s of
        Inl x \<Rightarrow> Inl x
      | Inr (result, s1) \<Rightarrow> Inr (result, if result then goal_place s1 else s1))"

text \<open>
  \<open>game_continue\<close>: the checks after a move, in the order of the source. The read of the
  cell under the car is \<open>mvwinnwstr(curses.gamewin, car.pos.y, car.pos.x, wch, 1)\<close>.
\<close>

definition game_continue :: "env \<Rightarrow> state \<Rightarrow> stop + (bool \<times> state)" where
  "game_continue e s =
     (let p = car_pos (car s) in
      if pos_x p = pos_x (goal_pos (goal s)) \<and> pos_y p = pos_y (goal_pos (goal s))
      then game_won e (game_update_screen s)
      else if \<not> car_position_changed s
      then Inr (True, s)
      else if game_borders (game s)
              \<and> (pos_x p < 0 \<or> pos_y p < 0 \<or> pos_x p = GAMEWIN_COLS s \<or> pos_y p = GAMEWIN_LINES s)
      then game_over e s
      else (let s1 = emit [Mvwinnwstr Gamewin (pos_y p) (pos_x p)] s in
            case env_mvwinnwstr e (pos_y p) (pos_x p) of
              None \<Rightarrow> Inr (False, s1)
            | Some c \<Rightarrow> if c \<noteq> of_char CHR '' '' then game_over e s1 else Inr (True, s1)))"

text \<open>
  One round of the \<open>for (;;)\<close> of \<open>game_loop\<close>. The variable \<open>wch\<close> lives across the
  rounds, so it is passed in and handed on. A round ends in the next round
  (\<open>Continue\<close>) or in a \<open>break\<close> (\<open>Break\<close>).
\<close>

datatype loop_outcome = Continue wint_t state | Break state

definition on_timer :: "(Timer \<Rightarrow> stop + Timer) \<Rightarrow> wint_t \<Rightarrow> state \<Rightarrow> stop + loop_outcome" where
  "on_timer f wch s =
     (case f (timer s) of Inl x \<Rightarrow> Inl x | Inr t \<Rightarrow> Inr (Continue wch (s\<lparr>timer := t\<rparr>)))"

definition game_loop_body :: "env \<Rightarrow> wint_t \<Rightarrow> state \<Rightarrow> stop + loop_outcome" where
  "game_loop_body e wch s =
     (case curses_wgetch e Gamewin wch (game_update_screen s) of
        Inl x \<Rightarrow> Inl x
      | Inr (r, wch1, s2) \<Rightarrow>
          if r = ERR then
            (if timer_finished (timer s2) \<noteq> 0 then
               (case game_continue e (car_move s2) of
                  Inl x \<Rightarrow> Inl x
                | Inr (continue, s3) \<Rightarrow>
                    if \<not> continue then Inr (Break s3)
                    else Inr (Continue wch1 (s3\<lparr>timer := (timer s3)\<lparr>timer_finished := 0\<rparr>\<rparr>)))
             else if game_need_resize (game s2) \<noteq> 0 then
               (case game_resize e s2 of
                  Inl x \<Rightarrow> Inl x
                | Inr s3 \<Rightarrow> Inr (Continue wch1 (s3\<lparr>game := (game s3)\<lparr>game_need_resize := 0\<rparr>\<rparr>)))
             else if game_need_terminate (game s2) \<noteq> 0 then Inl (Exit Die_null)
             else Inr (Continue wch1 s2))
          else if r = KEY_CODE_YES then
            (if wch1 = KEY_DOWN then on_timer (timer_slowdown e) wch1 s2
             else if wch1 = KEY_LEFT then Inr (Continue wch1 (s2\<lparr>car := car_turn_left (car s2)\<rparr>))
             else if wch1 = KEY_RIGHT then Inr (Continue wch1 (s2\<lparr>car := car_turn_right (car s2)\<rparr>))
             else if wch1 = KEY_UP then on_timer (timer_accelerate e) wch1 s2
             else Inr (Continue wch1 s2))
          else if wch1 = of_char CHR ''a'' then on_timer (timer_accelerate e) wch1 s2
          else if wch1 = of_char CHR ''b'' then on_timer (timer_slowdown e) wch1 s2
          else if wch1 = of_char CHR ''q'' then Inr (Break s2)
          else Inr (Continue wch1 s2))"

lemma pending_game_play_again_loop:
  "game_play_again_loop e wch s = Inr (wch', s') \<Longrightarrow> length (pending s') < length (pending s)"
proof (induction e wch s rule: game_play_again_loop.induct)
  case (1 e wch s)
  from "1.prems" obtain r wch1 s1 where
    g: "curses_wgetch e Msclwin wch s = Inr (r, wch1, s1)"
    by (auto simp: game_play_again_loop.simps [of e wch s] split: sum.splits)
  note lt = pending_curses_wgetch [OF g]
  show ?case
  proof (cases "wch1 \<noteq> of_char CHR ''y'' \<and> wch1 \<noteq> of_char CHR ''n''")
    case True
    with "1.prems" g have "game_play_again_loop e wch1 s1 = Inr (wch', s')"
      by (simp add: game_play_again_loop.simps [of e wch s])
    from "1.IH" [OF g refl refl True this] lt show ?thesis by simp
  next
    case False
    with "1.prems" g have "s' = s1"
      by (auto simp: game_play_again_loop.simps [of e wch s])
    with lt show ?thesis by simp
  qed
qed

lemma pending_game_reset: "game_reset e s = Inr s' \<Longrightarrow> pending s' = pending s"
  by (auto simp: game_reset_def Let_def split: sum.splits)

lemma pending_game_play_again:
  "game_play_again e msg s = Inr (b, s') \<Longrightarrow> length (pending s') < length (pending s)"
  by (auto simp: game_play_again_def Let_def split: sum.splits prod.splits if_splits
           dest!: pending_game_play_again_loop pending_game_reset)

lemma pending_game_over:
  "game_over e s = Inr (b, s') \<Longrightarrow> length (pending s') < length (pending s)"
  by (auto simp: game_over_def split: sum.splits prod.splits if_splits
           dest!: pending_game_play_again)

lemma pending_game_won:
  "game_won e s = Inr (b, s') \<Longrightarrow> length (pending s') < length (pending s)"
  by (auto simp: game_won_def split: sum.splits prod.splits if_splits
           dest!: pending_game_play_again)

lemma pending_game_continue:
  "game_continue e s = Inr (b, s') \<Longrightarrow> length (pending s') \<le> length (pending s)"
  by (auto simp: game_continue_def Let_def split: if_splits option.splits
           dest!: pending_game_over pending_game_won)

lemma pending_car_move [simp]: "pending (car_move s) = pending s"
  by (simp add: car_move_def car_go_down_def car_go_left_def car_go_right_def car_go_up_def
                set_car_pos_def Let_def split: Direction.splits)

lemma pending_game_loop_body:
  "game_loop_body e wch s = Inr (Continue wch' s') \<Longrightarrow> length (pending s') < length (pending s)"
  by (auto simp: game_loop_body_def on_timer_def split: sum.splits prod.splits if_splits
           dest!: pending_curses_wgetch pending_game_continue pending_game_resize)

text \<open>The \<open>for (;;)\<close> of \<open>game_loop\<close>, and \<open>game_loop\<close> itself.\<close>

function game_loop_rounds :: "env \<Rightarrow> wint_t \<Rightarrow> state \<Rightarrow> stop + state" where
  "game_loop_rounds e wch s =
     (case game_loop_body e wch s of
        Inl x \<Rightarrow> Inl x
      | Inr (Continue wch1 s1) \<Rightarrow> game_loop_rounds e wch1 s1
      | Inr (Break s1) \<Rightarrow> Inr s1)"
  by pat_completeness auto
termination
  by (relation "measure (\<lambda>(e, wch, s). length (pending s))")
     (auto dest: pending_game_loop_body)

declare game_loop_rounds.simps [simp del]

definition game_loop :: "env \<Rightarrow> state \<Rightarrow> stop + state" where
  "game_loop e s =
     (case timer_start e (timer s) of
        Inl x \<Rightarrow> Inl x
      | Inr t \<Rightarrow>
          (case game_loop_rounds e (env_uninit_wch e) (s\<lparr>timer := t\<rparr>) of
             Inl x \<Rightarrow> Inl x
           | Inr s1 \<Rightarrow>
               (case timer_end e (timer s1) of
                  Inl x \<Rightarrow> Inl x
                | Inr t1 \<Rightarrow> Inr (s1\<lparr>timer := t1\<rparr>))))"

section \<open>The level\<close>

text \<open>\<open>wcschr\<close>: the index of the first occurrence of a character in a wide string.\<close>

fun wcschr :: "wchar_t list \<Rightarrow> wchar_t \<Rightarrow> nat option" where
  "wcschr [] c = None"
| "wcschr (x # xs) c = (if x = c then Some 0 else map_option Suc (wcschr xs c))"

text \<open>\<open>wcswidth\<close>: the sum of the column widths, or \<open>-1\<close> when a character is not printable.\<close>

fun wcswidth :: "env \<Rightarrow> wchar_t list \<Rightarrow> int" where
  "wcswidth e [] = 0"
| "wcswidth e (c # cs) =
     (if env_wcwidth e c < 0 then - 1
      else (let r = wcswidth e cs in if r < 0 then - 1 else env_wcwidth e c + r))"

text \<open>
  \<open>fgetws(buf, n, in)\<close>: \<open>None\<close> is the null pointer (nothing left to read); otherwise
  the characters stored, at most \<open>n - 1\<close> and none after a newline, and the rest of the
  stream.
\<close>

definition newline :: wchar_t where "newline = 10"

definition fgetws :: "nat \<Rightarrow> wchar_t list \<Rightarrow> (wchar_t list \<times> wchar_t list) option" where
  "fgetws n inp =
     (if n = 0 \<or> inp = [] then None
      else (let k = (case wcschr (take (n - 1) inp) newline of
                       Some j \<Rightarrow> Suc j
                     | None \<Rightarrow> min (n - 1) (length inp))
            in Some (take k inp, drop k inp)))"

lemma wcschr_Some_less: "wcschr xs c = Some j \<Longrightarrow> j < length xs"
  by (induction xs arbitrary: j) (auto split: if_splits)

lemma fgetws_shorter:
  "fgetws n inp = Some (buf, rest) \<Longrightarrow> 2 \<le> n \<Longrightarrow> length rest < length inp"
  by (auto simp: fgetws_def Let_def split: if_splits option.splits)

lemma fgetws_not_longer: "fgetws n inp = Some (buf, rest) \<Longrightarrow> length rest \<le> length inp"
  by (auto simp: fgetws_def Let_def split: if_splits option.splits)

lemma fgetws_newline_shorter:
  "fgetws n inp = Some (buf, rest) \<Longrightarrow> wcschr buf c = Some j \<Longrightarrow> length rest < length inp"
  by (cases "n - 1") (auto simp: fgetws_def Let_def split: if_splits option.splits)

text \<open>
  The \<open>do\<close> loop of \<open>level_file_readlines\<close>, entered when the line did not fit the
  buffer: the buffer grows by \<open>BUFSIZ\<close> and \<open>fgetws\<close> fills it again from its start.
  The result is the row, the rest of the stream, and whether the function returns
  (\<open>fgetws\<close> gave the null pointer) instead of going on with the next row.
\<close>

function level_file_readlines_more ::
  "env \<Rightarrow> nat \<Rightarrow> wchar_t list \<Rightarrow> wchar_t list \<Rightarrow> stop + (wchar_t list \<times> wchar_t list \<times> bool)" where
  "level_file_readlines_more e size0 buf inp =
     (let size1 = size0 + BUFSIZ in
      if int size1 > INT_MAX then Inl (Exit Die_level_too_big)
      else if \<not> env_alloc_ok e then Inl (Exit Die_strerror)
      else (case fgetws size1 inp of
              None \<Rightarrow> Inr (buf, inp, True)
            | Some (buf1, rest) \<Rightarrow>
                (case wcschr buf1 newline of
                   None \<Rightarrow> level_file_readlines_more e size1 buf1 rest
                 | Some j \<Rightarrow> Inr (take j buf1, rest, False))))"
  by pat_completeness auto
termination
  by (relation "measure (\<lambda>(e, size0, buf, inp). length inp)")
     (auto simp: BUFSIZ_def dest!: fgetws_shorter)

declare level_file_readlines_more.simps [simp del]

lemma level_file_readlines_more_not_longer:
  "level_file_readlines_more e size0 buf inp = Inr (row, rest, ret)
   \<Longrightarrow> length rest \<le> length inp"
proof (induction e size0 buf inp rule: level_file_readlines_more.induct)
  case (1 e size0 buf inp)
  show ?case
  proof (cases "fgetws (size0 + BUFSIZ) inp")
    case None
    with "1.prems" show ?thesis
      by (auto simp: level_file_readlines_more.simps [of e size0 buf inp] Let_def
               split: if_splits)
  next
    case (Some br)
    obtain buf1 rest1 where br: "br = (buf1, rest1)" by (cases br)
    note le = fgetws_not_longer [OF Some [unfolded br]]
    show ?thesis
    proof (cases "wcschr buf1 newline")
      case None
      from "1.prems" Some br None have
        ok: "\<not> INT_MAX < int (size0 + BUFSIZ)" "\<not> \<not> env_alloc_ok e" and
        rec: "level_file_readlines_more e (size0 + BUFSIZ) buf1 rest1 = Inr (row, rest, ret)"
        by (auto simp: level_file_readlines_more.simps [of e size0 buf inp] Let_def
                 split: if_splits)
      from "1.IH" [OF refl ok Some [unfolded br] refl None rec] le show ?thesis by simp
    next
      case (Some j)
      with "1.prems" \<open>fgetws (size0 + BUFSIZ) inp = Some br\<close> br le show ?thesis
        by (auto simp: level_file_readlines_more.simps [of e size0 buf inp] Let_def
                 split: if_splits)
    qed
  qed
qed

text \<open>
  The \<open>for\<close> loop of \<open>level_file_readlines\<close>: \<open>i\<close> rows are read, \<open>fld\<close> holds them.
  The result is the number of rows, the rows and the rest of the stream. The
  environment says whether the \<open>_realloc\<close> and \<open>_malloc\<close> at the top of a round succeed;
  the \<open>_realloc\<close> that gives back the unused pointer before the function returns is
  taken to succeed.
\<close>

function level_file_readlines_from ::
  "env \<Rightarrow> nat \<Rightarrow> nat \<Rightarrow> wchar_t list list \<Rightarrow> wchar_t list
   \<Rightarrow> stop + (nat \<times> wchar_t list list \<times> wchar_t list)" where
  "level_file_readlines_from e i size0 fld inp =
     (if int i = INT_MAX then Inl (Exit Die_level_too_big)
      else if \<not> env_alloc_ok e then Inl (Exit Die_strerror)
      else (case fgetws size0 inp of
              None \<Rightarrow> Inr (i, fld, inp)
            | Some (buf, rest) \<Rightarrow>
                (case wcschr buf newline of
                   Some j \<Rightarrow> level_file_readlines_from e (i + 1) size0 (fld @ [take j buf]) rest
                 | None \<Rightarrow>
                     (case level_file_readlines_more e size0 buf rest of
                        Inl x \<Rightarrow> Inl x
                      | Inr (row, rest1, ret) \<Rightarrow>
                          if ret then Inr (i + 1, fld @ [row], rest1)
                          else level_file_readlines_from e (i + 1) BUFSIZ (fld @ [row]) rest1))))"
  by pat_completeness auto

lemma level_file_readlines_more_shorter:
  assumes "level_file_readlines_more e size0 buf inp = Inr (row, rest, False)"
  shows "length rest < length inp"
proof (cases "fgetws (size0 + BUFSIZ) inp")
  case None
  with assms show ?thesis
    by (auto simp: level_file_readlines_more.simps [of e size0 buf inp] Let_def split: if_splits)
next
  case (Some br)
  obtain buf1 rest1 where br: "br = (buf1, rest1)" by (cases br)
  have "2 \<le> size0 + BUFSIZ" by (simp add: BUFSIZ_def)
  from fgetws_shorter [OF Some [unfolded br] this] have lt: "length rest1 < length inp" .
  show ?thesis
  proof (cases "wcschr buf1 newline")
    case None
    with assms Some br have
      "level_file_readlines_more e (size0 + BUFSIZ) buf1 rest1 = Inr (row, rest, False)"
      by (auto simp: level_file_readlines_more.simps [of e size0 buf inp] Let_def
               split: if_splits)
    from level_file_readlines_more_not_longer [OF this] lt show ?thesis by simp
  next
    case (Some j)
    with assms \<open>fgetws (size0 + BUFSIZ) inp = Some br\<close> br lt show ?thesis
      by (auto simp: level_file_readlines_more.simps [of e size0 buf inp] Let_def
               split: if_splits)
  qed
qed

lemma level_file_readlines_from_shorter:
  "fgetws size0 inp = Some (buf, rest)
   \<Longrightarrow> level_file_readlines_more e size0 buf rest = Inr (row, rest1, False)
   \<Longrightarrow> length rest1 < length inp"
  using fgetws_not_longer [of size0 inp buf rest]
        level_file_readlines_more_shorter [of e size0 buf rest row rest1]
  by simp

termination level_file_readlines_from
  by (relation "measure (\<lambda>(e, i, size0, fld, inp). length inp)")
     (auto intro: fgetws_newline_shorter level_file_readlines_from_shorter)

declare level_file_readlines_from.simps [simp del]

text \<open>\<open>game.field\<close> is null when \<open>level_file_readlines\<close> is called: no rows yet.\<close>

definition level_file_readlines ::
  "env \<Rightarrow> wchar_t list \<Rightarrow> stop + (nat \<times> wchar_t list list \<times> wchar_t list)" where
  "level_file_readlines e inp = level_file_readlines_from e 0 BUFSIZ [] inp"

definition level_file_read :: "env \<Rightarrow> state \<Rightarrow> stop + state" where
  "level_file_read e s =
     (case env_fopen e of
        None \<Rightarrow> Inl (Exit Die_strerror)
      | Some f \<Rightarrow>
          (case level_file_readlines e (lf_chars f) of
             Inl x \<Rightarrow> Inl x
           | Inr (n, fld, rest) \<Rightarrow>
               if lf_error f then Inl (Exit Die_read_error)
               else if n = 0 then Inl (Exit Die_no_lines)
               else Inr (s\<lparr>game := (game s)\<lparr>game_field := fld, game_lines := int n\<rparr>\<rparr>)))"

text \<open>The local variables of \<open>level_init\<close>.\<close>

record level_init_vars =
  goal_index :: Pos
  car_start_index :: Pos
  goal_count :: nat
  start_count :: nat

text \<open>
  The first of the four car characters found in the row, asked for in the order of the
  source: down, left, right, up.
\<close>

definition find_car :: "wchar_t list \<Rightarrow> (Direction \<times> nat) option" where
  "find_car row =
     (case wcschr row chars_car_down of
        Some k \<Rightarrow> Some (DOWN, k)
      | None \<Rightarrow>
          (case wcschr row chars_car_left of
             Some k \<Rightarrow> Some (LEFT, k)
           | None \<Rightarrow>
               (case wcschr row chars_car_right of
                  Some k \<Rightarrow> Some (RIGHT, k)
                | None \<Rightarrow>
                    (case wcschr row chars_car_up of
                       Some k \<Rightarrow> Some (UP, k)
                     | None \<Rightarrow> None))))"

text \<open>The body of the \<open>for\<close> loop of \<open>level_init\<close>, for row \<open>i\<close>.\<close>

definition level_init_row ::
  "env \<Rightarrow> nat \<Rightarrow> level_init_vars \<times> state \<Rightarrow> stop + (level_init_vars \<times> state)" where
  "level_init_row e i vs =
     (let v = fst vs; s = snd vs; row = game_field (game s) ! i; len = wcswidth e row in
      if len = - 1 then Inl (Exit Die_wcswidth)
      else
        (let s1 = (if len > game_cols (game s) then s\<lparr>game := (game s)\<lparr>game_cols := len\<rparr>\<rparr> else s) in
         case wcschr row chars_goal of
           Some k \<Rightarrow>
             Inr (v\<lparr>goal_index := \<lparr>pos_x = int k, pos_y = int i\<rparr>, goal_count := goal_count v + 1\<rparr>, s1)
         | None \<Rightarrow>
             (case find_car row of
                None \<Rightarrow> Inr (v, s1)
              | Some (d, k) \<Rightarrow>
                  (let s2 = s1\<lparr>car := (car s1)\<lparr>car_start_direction := d\<rparr>\<rparr>;
                       s3 = s2\<lparr>game := (game s2)\<lparr>game_field :=
                              (game_field (game s2))[i := row[k := of_char CHR '' '']]\<rparr>\<rparr>
                   in Inr (v\<lparr>car_start_index := \<lparr>pos_x = int k, pos_y = int i\<rparr>,
                             start_count := start_count v + 1\<rparr>, s3)))))"

fun level_init_rows ::
  "env \<Rightarrow> nat list \<Rightarrow> level_init_vars \<times> state \<Rightarrow> stop + (level_init_vars \<times> state)" where
  "level_init_rows e [] vs = Inr vs"
| "level_init_rows e (i # is) vs =
     (case level_init_row e i vs of
        Inl x \<Rightarrow> Inl x
      | Inr vs1 \<Rightarrow> level_init_rows e is vs1)"

definition level_init_positions :: "env \<Rightarrow> Pos \<Rightarrow> Pos \<Rightarrow> state \<Rightarrow> state" where
  "level_init_positions e gi ci s =
     (let s1 = s\<lparr>game := (game s)\<lparr>game_x_offset := (GAMEWIN_COLS s - game_cols (game s)) sdiv 2,
                                    game_y_offset := (GAMEWIN_LINES s - game_lines (game s)) sdiv 2\<rparr>\<rparr>;
          buf = take (nat (pos_x gi)) (game_field (game s1) ! nat (pos_y gi));
          s2 = s1\<lparr>goal := (goal s1)\<lparr>goal_pos :=
                          \<lparr>pos_x = wcswidth e buf + game_x_offset (game s1),
                           pos_y = pos_y gi + game_y_offset (game s1)\<rparr>\<rparr>\<rparr>;
          buf1 = take (nat (pos_x ci)) (game_field (game s2) ! nat (pos_y ci))
      in s2\<lparr>car := (car s2)\<lparr>car_start_pos :=
                        \<lparr>pos_x = wcswidth e buf1 + game_x_offset (game s2),
                         pos_y = pos_y ci + game_y_offset (game s2)\<rparr>\<rparr>\<rparr>)"

definition level_init :: "env \<Rightarrow> state \<Rightarrow> stop + state" where
  "level_init e s =
     (case level_init_rows e [0 ..< nat (game_lines (game s))]
             (\<lparr>goal_index = \<lparr>pos_x = 0, pos_y = 0\<rparr>, car_start_index = \<lparr>pos_x = 0, pos_y = 0\<rparr>,
               goal_count = 0, start_count = 0\<rparr>, s) of
        Inl x \<Rightarrow> Inl x
      | Inr (v, s1) \<Rightarrow>
          if goal_count v \<noteq> 1 then Inl (Exit (Die_goal_count (goal_count v)))
          else if start_count v \<noteq> 1 then Inl (Exit (Die_start_count (start_count v)))
          else Inr (level_init_positions e (goal_index v) (car_start_index v) s1))"

definition level_setup :: "env \<Rightarrow> state \<Rightarrow> stop + state" where
  "level_setup e s =
     (case level_file_read e s of
        Inl x \<Rightarrow> Inl x
      | Inr s1 \<Rightarrow>
          (case level_init e s1 of
             Inl x \<Rightarrow> Inl x
           | Inr s2 \<Rightarrow>
               (case curses_check_size s2 of
                  Inl x \<Rightarrow> Inl x
                | Inr s3 \<Rightarrow>
                    (let s4 = s3\<lparr>game := (game s3)
                                 \<lparr>game_x_offset := (GAMEWIN_COLS s3 - game_cols (game s3)) sdiv 2,
                                  game_y_offset := (GAMEWIN_LINES s3 - game_lines (game s3)) sdiv 2\<rparr>\<rparr>;
                         s5 = goal_place (level_draw s4)
                     in Inr (s5\<lparr>car := car_reset (car s5)\<rparr>)))))"

section \<open>Notions the properties are stated with\<close>

text \<open>The Playable Area: the cells of the game window.\<close>

definition in_playable_area :: "state \<Rightarrow> Pos \<Rightarrow> bool" where
  "in_playable_area s p =
     (0 \<le> pos_x p \<and> pos_x p < GAMEWIN_COLS s \<and> 0 \<le> pos_y p \<and> pos_y p < GAMEWIN_LINES s)"

text \<open>The timer is armed: its interval is not zero (the test the source makes).\<close>

definition timer_armed :: "Timer \<Rightarrow> bool" where
  "timer_armed t =
     (\<not> (tv_sec (it_interval (timer_its t)) = 0 \<and> tv_nsec (it_interval (timer_its t)) = 0))"

text \<open>\<open>timer_slowdown\<close> called \<open>n\<close> times in a row.\<close>

fun timer_slowdown_times :: "env \<Rightarrow> nat \<Rightarrow> Timer \<Rightarrow> stop + Timer" where
  "timer_slowdown_times e 0 t = Inr t"
| "timer_slowdown_times e (Suc n) t =
     (case timer_slowdown e t of Inl x \<Rightarrow> Inl x | Inr t1 \<Rightarrow> timer_slowdown_times e n t1)"

text \<open>\<open>timer_accelerate\<close> called \<open>n\<close> times in a row.\<close>

fun timer_accelerate_times :: "env \<Rightarrow> nat \<Rightarrow> Timer \<Rightarrow> stop + Timer" where
  "timer_accelerate_times e 0 t = Inr t"
| "timer_accelerate_times e (Suc n) t =
     (case timer_accelerate e t of Inl x \<Rightarrow> Inl x | Inr t1 \<Rightarrow> timer_accelerate_times e n t1)"

text \<open>
  The calls by which a crash check shows on the screen: the read of the cell under the
  car, and the prompt of \<open>game_over\<close>.
\<close>

definition crash_check :: "curses_call \<Rightarrow> bool" where
  "crash_check c =
     (case c of
        Mvwinnwstr w y x \<Rightarrow> True
      | Waddnwstr w msg n \<Rightarrow> msg = game_over_msg
      | _ \<Rightarrow> False)"

text \<open>The calls \<open>cs'\<close> continue the calls \<open>cs\<close>, and what was added shows no crash check.\<close>

definition quiet :: "curses_call list \<Rightarrow> curses_call list \<Rightarrow> bool" where
  "quiet cs cs' = (prefix cs cs' \<and> list_all (\<lambda>c. \<not> crash_check c) (drop (length cs) cs'))"

section \<open>A session to evaluate the functions on\<close>

text \<open>
  An 80 x 24 terminal with borders and a level of three rows of five columns, the goal
  in the last row; every cell of the screen reads as blank, every library call succeeds.
\<close>

definition ex_env :: env where
  "ex_env =
     \<lparr>env_COLS = 80, env_LINES = 24, env_newwin_ok = True, env_timer_create_ok = True,
      env_timer_settime_ok = (\<lambda>its. True), env_timer_delete_ok = True,
      env_mvwinnwstr = (\<lambda>y x. Some (of_char CHR '' '')), env_wcwidth = (\<lambda>c. 1),
      env_alloc_ok = True, env_fopen = None, env_uninit_wch = 0\<rparr>"

definition ex_car :: Car where
  "ex_car =
     \<lparr>car_car = (chars_car_right, 1), car_left = (chars_car_left, 1),
      car_right = (chars_car_right, 1), car_up = (chars_car_up, 1), car_down = (chars_car_down, 1),
      car_start_direction = RIGHT, car_direction = RIGHT,
      car_pos = \<lparr>pos_x = 38, pos_y = 10\<rparr>, car_start_pos = \<lparr>pos_x = 36, pos_y = 10\<rparr>,
      car_old_pos = \<lparr>pos_x = 38, pos_y = 10\<rparr>\<rparr>"

definition ex_timer :: Timer where
  "ex_timer =
     \<lparr>timer_its = \<lparr>it_value = \<lparr>tv_sec = 0, tv_nsec = start_speed\<rparr>,
                    it_interval = \<lparr>tv_sec = 0, tv_nsec = start_speed\<rparr>\<rparr>,
      timer_finished = 0\<rparr>"

definition ex_state :: state where
  "ex_state =
     \<lparr>car = ex_car,
      curses = \<lparr>curses_mscl_attrs = 768, curses_cols = 80, curses_lines = 24\<rparr>,
      game = \<lparr>game_field = [wstr ''     '', wstr ''     '', wstr ''    x''],
               game_borders = True, game_need_resize = 0, game_need_terminate = 0,
               game_cols = 5, game_lines = 3, game_x_offset = 36, game_y_offset = 9\<rparr>,
      goal = \<lparr>goal_goal = (chars_goal, 2), goal_pos = \<lparr>pos_x = 40, pos_y = 11\<rparr>\<rparr>,
      timer = ex_timer,
      pending = [], calls = []\<rparr>"

text \<open>The timer fires while \<open>wget_wch\<close> blocks: \<open>SIGALRM\<close>, and the read is interrupted.\<close>

definition ev_tick :: wget_event where
  "ev_tick = \<lparr>ev_signals = [SIGALRM], ev_ret = Ret_err EINTR None\<rparr>"

text \<open>The player types a character.\<close>

definition ev_char :: "char \<Rightarrow> wget_event" where
  "ev_char c = \<lparr>ev_signals = [], ev_ret = Ret_ok (of_char c)\<rparr>"

text \<open>The state of the session above when the timer has fired and the read has returned.\<close>

definition ex_tick_state :: state where
  "ex_tick_state = ex_state\<lparr>pending := [ev_tick]\<rparr>"

definition ex_after_tick_read :: state where
  "ex_after_tick_read =
     ex_state\<lparr>timer := ex_timer\<lparr>timer_finished := 1\<rparr>,
              calls := [Mvwadd_wch Gamewin 10 38 (chars_car_right, 1), Wnoutrefresh Gamewin,
                        Wnoutrefresh Mainwin, Doupdate, Wget_wch Gamewin]\<rparr>"

text \<open>The same session without borders (wrap mode).\<close>

definition ex_wrap_state :: state where
  "ex_wrap_state = ex_state\<lparr>game := (game ex_state)\<lparr>game_borders := False\<rparr>\<rparr>"

text \<open>The same terminal when reading a cell of the game window fails.\<close>

definition ex_fail_env :: env where
  "ex_fail_env = ex_env\<lparr>env_mvwinnwstr := (\<lambda>y x. None)\<rparr>"

text \<open>The car of the session one cell further to the right, and the calls of that round.\<close>

definition ex_moved_car :: Car where
  "ex_moved_car = ex_car\<lparr>car_pos := \<lparr>pos_x = 39, pos_y = 10\<rparr>\<rparr>"

definition ex_tick_calls :: "curses_call list" where
  "ex_tick_calls =
     [Mvwadd_wch Gamewin 10 38 (chars_car_right, 1), Wnoutrefresh Gamewin, Wnoutrefresh Mainwin,
      Doupdate, Wget_wch Gamewin, Mvwinnwstr Gamewin 10 39]"

text \<open>
  All three signals arrive while \<open>wget_wch\<close> blocks: the timer, a resize request
  (\<open>SIGCONT\<close>) and a termination request.
\<close>

definition ex_flags_state :: state where
  "ex_flags_state =
     ex_state\<lparr>pending := [\<lparr>ev_signals = [SIGALRM, SIGCONT, SIGTERM], ev_ret = Ret_err EINTR None\<rparr>]\<rparr>"

definition ex_flags_read :: state where
  "ex_flags_read =
     ex_after_tick_read\<lparr>game := (game ex_state)\<lparr>game_need_resize := 1, game_need_terminate := 1\<rparr>\<rparr>"

definition ex_flags_next :: state where
  "ex_flags_next =
     ex_state\<lparr>car := ex_moved_car,
              game := (game ex_state)\<lparr>game_need_resize := 1, game_need_terminate := 1\<rparr>,
              calls := ex_tick_calls\<rparr>"

text \<open>
  The session when the read is interrupted with the signals \<open>sigs\<close>, and when that read
  has returned with the three flags at \<open>f\<close>, \<open>r\<close> and \<open>t\<close>.
\<close>

definition ex_signal_state :: "signal list \<Rightarrow> state" where
  "ex_signal_state sigs =
     ex_state\<lparr>pending := [\<lparr>ev_signals = sigs, ev_ret = Ret_err EINTR None\<rparr>]\<rparr>"

definition ex_signal_read :: "int \<Rightarrow> int \<Rightarrow> int \<Rightarrow> state" where
  "ex_signal_read f r t =
     ex_after_tick_read
       \<lparr>timer := ex_timer\<lparr>timer_finished := f\<rparr>,
        game := (game ex_state)\<lparr>game_need_resize := r, game_need_terminate := t\<rparr>\<rparr>"

text \<open>The session after a round that handled a resize request (the terminal kept its size).\<close>

definition ex_resized :: state where
  "ex_resized =
     ex_state
       \<lparr>game := (game ex_state)\<lparr>game_need_terminate := 1\<rparr>,
        calls := [Mvwadd_wch Gamewin 10 38 (chars_car_right, 1), Wnoutrefresh Gamewin,
                  Wnoutrefresh Mainwin, Doupdate, Wget_wch Gamewin, Endwin, Refresh,
                  Wresize Gamewin 21 78, Wresize Mainwin 23 80, Delwin Msclwin,
                  Newwin Msclwin 1 80 23 0, Wattron Msclwin 768, Keypad Gamewin, Werase Mainwin,
                  Box Mainwin,
                  Mvwaddwstr Gamewin 9 36 (wstr ''     ''),
                  Mvwaddwstr Gamewin 10 36 (wstr ''     ''),
                  Mvwaddwstr Gamewin 11 36 (wstr ''    x''),
                  Mvwadd_wch Gamewin 11 40 (chars_goal, 2),
                  Mvwadd_wch Gamewin 10 38 (chars_car_right, 1), Wnoutrefresh Gamewin,
                  Wnoutrefresh Mainwin, Doupdate]\<rparr>"

text \<open>
  The car has just moved onto the goal of the level, where the screen shows the goal
  character: the cell under the car is not blank. The player will answer the prompt
  with \<open>n\<close>.
\<close>

definition ex_goal_env :: env where
  "ex_goal_env =
     ex_env\<lparr>env_mvwinnwstr :=
               (\<lambda>y x. if y = 11 \<and> x = 40 then Some chars_goal else Some (of_char CHR '' ''))\<rparr>"

definition ex_goal_state :: state where
  "ex_goal_state =
     ex_state\<lparr>car := ex_car\<lparr>car_pos := \<lparr>pos_x = 40, pos_y = 11\<rparr>,
                            car_old_pos := \<lparr>pos_x = 39, pos_y = 11\<rparr>\<rparr>,
              pending := [ev_char CHR ''n'']\<rparr>"

definition ex_goal_after :: state where
  "ex_goal_after =
     ex_goal_state\<lparr>car := ex_car\<lparr>car_pos := \<lparr>pos_x = 40, pos_y = 11\<rparr>,
                                 car_old_pos := \<lparr>pos_x = 40, pos_y = 11\<rparr>\<rparr>,
                   pending := [],
                   calls := [Mvwadd_wch Gamewin 11 40 (chars_car_right, 1),
                             Mvwaddch Gamewin 11 39 32,
                             Wnoutrefresh Gamewin, Wnoutrefresh Mainwin, Doupdate,
                             Wmove Msclwin 0 0, Waddnwstr Msclwin game_won_msg 80,
                             Wrefresh Msclwin, Wmove Gamewin 11 40,
                             Wget_wch Msclwin,
                             Wmove Msclwin 0 0, Wclrtoeol Msclwin, Wrefresh Msclwin]\<rparr>"

text \<open>
  The same with the goal on the border: with borders the game window has 78 columns, and
  here the goal is at column 78, where the border check of \<open>game_continue\<close> sees a crash.
\<close>

definition ex_border_goal_state :: state where
  "ex_border_goal_state =
     ex_state\<lparr>car := ex_car\<lparr>car_pos := \<lparr>pos_x = 78, pos_y = 10\<rparr>,
                            car_old_pos := \<lparr>pos_x = 77, pos_y = 10\<rparr>\<rparr>,
              goal := \<lparr>goal_goal = (chars_goal, 2), goal_pos = \<lparr>pos_x = 78, pos_y = 10\<rparr>\<rparr>,
              pending := [ev_char CHR ''n'']\<rparr>"

definition ex_border_goal_after :: state where
  "ex_border_goal_after =
     ex_border_goal_state
       \<lparr>car := ex_car\<lparr>car_pos := \<lparr>pos_x = 78, pos_y = 10\<rparr>,
                      car_old_pos := \<lparr>pos_x = 78, pos_y = 10\<rparr>\<rparr>,
        pending := [],
        calls := [Mvwadd_wch Gamewin 10 78 (chars_car_right, 1),
                  Mvwaddch Gamewin 10 77 32,
                  Wnoutrefresh Gamewin, Wnoutrefresh Mainwin, Doupdate,
                  Wmove Msclwin 0 0, Waddnwstr Msclwin game_won_msg 80,
                  Wrefresh Msclwin, Wmove Gamewin 10 78,
                  Wget_wch Msclwin,
                  Wmove Msclwin 0 0, Wclrtoeol Msclwin, Wrefresh Msclwin]\<rparr>"

text \<open>The timer of the session with another interval.\<close>

definition ex_timer_at :: "int \<Rightarrow> Timer" where
  "ex_timer_at n =
     \<lparr>timer_its = \<lparr>it_value = \<lparr>tv_sec = 0, tv_nsec = n\<rparr>,
                    it_interval = \<lparr>tv_sec = 0, tv_nsec = n\<rparr>\<rparr>,
      timer_finished = 0\<rparr>"

text \<open>
  The terminal with the kernel's \<open>timer_settime\<close>: it accepts an \<open>itimerspec\<close> whose
  seconds are not negative and whose nanoseconds are from 0 to 999999999, and refuses
  every other with \<open>EINVAL\<close>.
\<close>

definition ex_kernel_env :: env where
  "ex_kernel_env =
     ex_env\<lparr>env_timer_settime_ok :=
               (\<lambda>its. 0 \<le> tv_sec (it_value its) \<and> 0 \<le> tv_nsec (it_value its)
                      \<and> tv_nsec (it_value its) < 1000000000
                      \<and> 0 \<le> tv_sec (it_interval its) \<and> 0 \<le> tv_nsec (it_interval its)
                      \<and> tv_nsec (it_interval its) < 1000000000)\<rparr>"

text \<open>
  The session before \<open>level_setup\<close>: the globals as C initialises them, the glyphs and
  the terminal size as \<open>curses_setup\<close> leaves them. The level file is given by its
  characters.
\<close>

definition ex_startup_state :: state where
  "ex_startup_state =
     \<lparr>car = \<lparr>car_car = (0, 0), car_left = (chars_car_left, 1),
              car_right = (chars_car_right, 1), car_up = (chars_car_up, 1),
              car_down = (chars_car_down, 1),
              car_start_direction = LEFT, car_direction = LEFT,
              car_pos = \<lparr>pos_x = 0, pos_y = 0\<rparr>, car_start_pos = \<lparr>pos_x = 0, pos_y = 0\<rparr>,
              car_old_pos = \<lparr>pos_x = 0, pos_y = 0\<rparr>\<rparr>,
      curses = \<lparr>curses_mscl_attrs = 768, curses_cols = 80, curses_lines = 24\<rparr>,
      game = \<lparr>game_field = [], game_borders = default_borders, game_need_resize = 0,
               game_need_terminate = 0, game_cols = 0, game_lines = 0, game_x_offset = 0,
               game_y_offset = 0\<rparr>,
      goal = \<lparr>goal_goal = (chars_goal, 2), goal_pos = \<lparr>pos_x = 0, pos_y = 0\<rparr>\<rparr>,
      timer = \<lparr>timer_its = \<lparr>it_value = \<lparr>tv_sec = 0, tv_nsec = 0\<rparr>,
                              it_interval = \<lparr>tv_sec = 0, tv_nsec = 0\<rparr>\<rparr>,
                timer_finished = 0\<rparr>,
      pending = [], calls = []\<rparr>"

definition ex_level_env :: "wchar_t list \<Rightarrow> env" where
  "ex_level_env cs = ex_env\<lparr>env_fopen := Some \<lparr>lf_chars = cs, lf_error = False\<rparr>\<rparr>"

text \<open>
  Three rows of three columns: the car, facing right, in column 0 of the middle row and
  the goal in column 2 of the same row.
\<close>

definition ex_same_row_level :: "wchar_t list" where
  "ex_same_row_level =
     wstr ''   '' @ [newline] @ [chars_car_right] @ wstr '' x'' @ [newline] @ wstr ''   '' @ [newline]"

text \<open>A row with two goal markers, and a row with the car.\<close>

definition ex_two_goals_level :: "wchar_t list" where
  "ex_two_goals_level = wstr ''xx'' @ [newline] @ [chars_car_right] @ [newline]"

text \<open>Two rows with two goal markers each, and a row with the car.\<close>

definition ex_four_goals_level :: "wchar_t list" where
  "ex_four_goals_level =
     wstr ''xx'' @ [newline] @ wstr ''xx'' @ [newline] @ [chars_car_right] @ [newline]"

text \<open>A row with the goal, and a row with two car markers.\<close>

definition ex_two_cars_level :: "wchar_t list" where
  "ex_two_cars_level = wstr ''x'' @ [newline] @ [chars_car_right, chars_car_right] @ [newline]"

text \<open>The session that \<open>level_setup\<close> makes of a level of two rows of two columns.\<close>

definition ex_loaded :: "wchar_t list list \<Rightarrow> state" where
  "ex_loaded fld =
     ex_startup_state
       \<lparr>car := (car ex_startup_state)
                 \<lparr>car_car := (chars_car_right, 1), car_start_direction := RIGHT,
                  car_direction := RIGHT, car_pos := \<lparr>pos_x = 38, pos_y = 10\<rparr>,
                  car_start_pos := \<lparr>pos_x = 38, pos_y = 10\<rparr>,
                  car_old_pos := \<lparr>pos_x = 38, pos_y = 10\<rparr>\<rparr>,
        game := (game ex_startup_state)
                  \<lparr>game_field := fld, game_cols := 2, game_lines := 2, game_x_offset := 38,
                   game_y_offset := 9\<rparr>,
        goal := \<lparr>goal_goal = (chars_goal, 2), goal_pos = \<lparr>pos_x = 38, pos_y = 9\<rparr>\<rparr>,
        calls := [Mvwaddwstr Gamewin 9 38 (fld ! 0), Mvwaddwstr Gamewin 10 38 (fld ! 1),
                  Mvwadd_wch Gamewin 9 38 (chars_goal, 2)]\<rparr>"

section \<open>What the functions leave alone\<close>

lemmas car_go_defs =
  car_move_def car_go_down_def car_go_left_def car_go_right_def car_go_up_def set_car_pos_def

lemmas ex_defs =
  ex_env_def ex_car_def ex_timer_def ex_state_def ev_tick_def ev_char_def ex_tick_state_def
  ex_after_tick_read_def ex_moved_car_def ex_tick_calls_def

lemmas eval_defs =
  game_loop_body_def curses_wgetch_def curses_wgetch_loop.simps game_update_screen_def
  game_continue_def car_go_defs car_position_changed_def emit_def sig_hdl_def
  GAMEWIN_COLS_def GAMEWIN_LINES_def Let_def

lemma car_emit [simp]: "car (emit cs s) = car s"
  by (simp add: emit_def)

lemma game_emit [simp]: "game (emit cs s) = game s"
  by (simp add: emit_def)

lemma goal_emit [simp]: "goal (emit cs s) = goal s"
  by (simp add: emit_def)

lemma timer_emit [simp]: "timer (emit cs s) = timer s"
  by (simp add: emit_def)

lemma curses_emit [simp]: "curses (emit cs s) = curses s"
  by (simp add: emit_def)

lemma calls_emit [simp]: "calls (emit cs s) = calls s @ cs"
  by (simp add: emit_def)

lemma car_mscl [simp]: "car (mscl msg s) = car s" "car (mscl_clear s) = car s"
  by (simp_all add: mscl_def mscl_clear_def)

lemma game_mscl [simp]: "game (mscl msg s) = game s" "game (mscl_clear s) = game s"
  by (simp_all add: mscl_def mscl_clear_def)

lemma game_goal_place [simp]: "game (goal_place s) = game s"
  by (simp add: goal_place_def)

lemma car_sig_hdl [simp]: "car (sig_hdl sig s) = car s"
  by (cases sig) (simp_all add: sig_hdl_def)

lemma car_fold_sig_hdl [simp]: "car (fold sig_hdl sigs s) = car s"
  by (induction sigs arbitrary: s) simp_all

lemma borders_sig_hdl [simp]: "game_borders (game (sig_hdl sig s)) = game_borders (game s)"
  by (cases sig) (simp_all add: sig_hdl_def)

lemma borders_fold_sig_hdl [simp]:
  "game_borders (game (fold sig_hdl sigs s)) = game_borders (game s)"
  by (induction sigs arbitrary: s) simp_all

lemma borders_game_update_screen [simp]:
  "game_borders (game (game_update_screen s)) = game_borders (game s)"
  by (simp add: game_update_screen_def Let_def)

lemma borders_level_resize [simp]:
  "game_borders (game (level_resize s)) = game_borders (game s)"
  by (simp add: level_resize_def level_draw_def Let_def)

lemma curses_resize_car:
  "curses_resize e s = Inr s' \<Longrightarrow> car s' = car s \<and> game s' = game s"
  by (auto simp: curses_resize_def curses_check_size_def curses_set_windows_def Let_def
           split: if_splits)

subsection \<open>How a round ends the loop or hands on to the next\<close>

lemma game_loop_rounds_Break:
  "game_loop_body e wch s = Inr (Break s') \<Longrightarrow> game_loop_rounds e wch s = Inr s'"
  by (simp add: game_loop_rounds.simps [of e wch s])

lemma game_loop_rounds_Continue:
  "game_loop_body e wch s = Inr (Continue wch1 s1)
   \<Longrightarrow> game_loop_rounds e wch s = game_loop_rounds e wch1 s1"
  by (simp add: game_loop_rounds.simps [of e wch s])

subsection \<open>After a redraw the previous position is the position\<close>

definition car_synced :: "state \<Rightarrow> bool" where
  "car_synced s = (car_old_pos (car s) = car_pos (car s))"

lemma car_synced_game_update_screen: "car_synced (game_update_screen s)"
  by (simp add: car_synced_def game_update_screen_def emit_def Let_def car_position_changed_def
                Pos.equality)

lemma level_resize_synced: "car_synced s \<Longrightarrow> car_synced (level_resize s)"
  by (simp add: level_resize_def level_draw_def car_synced_def Let_def)

lemma game_resize_synced:
  "game_resize e s = Inr s' \<Longrightarrow> car_synced s' \<and> game_borders (game s') = game_borders (game s)"
  by (auto simp: game_resize_def car_synced_game_update_screen split: sum.splits
           dest!: curses_resize_car)

lemma curses_wgetch_loop_synced:
  "curses_wgetch_loop e win mscl_used wch s = Inr (r, wch', s') \<Longrightarrow> car_synced s
   \<Longrightarrow> car_synced s' \<and> game_borders (game s') = game_borders (game s)"
proof (induction e win mscl_used wch s rule: curses_wgetch_loop.induct)
  case (1 e win mscl_used wch s)
  show ?case
  proof (cases "pending s")
    case Nil
    with "1.prems" show ?thesis
      by (simp add: curses_wgetch_loop.simps [of e win mscl_used wch s])
  next
    case (Cons ev rest)
    let ?s1 = "fold sig_hdl (ev_signals ev) (emit [Wget_wch win] (s\<lparr>pending := rest\<rparr>))"
    have s1: "car_synced ?s1" "game_borders (game ?s1) = game_borders (game s)"
      using "1.prems"(2) by (simp_all add: car_synced_def)
    show ?thesis
    proof (cases "ev_ret ev")
      case (Ret_key_code k)
      show ?thesis
      proof (cases "k = KEY_RESIZE")
        case True
        from "1.prems" Cons Ret_key_code True obtain s2 where
          gr: "game_resize e ?s1 = Inr s2" and
          rec: "curses_wgetch_loop e win mscl_used k s2 = Inr (r, wch', s')"
          by (auto simp: curses_wgetch_loop.simps [of e win mscl_used wch s] Let_def
                   split: sum.splits)
        from game_resize_synced [OF gr] s1
        have s2: "car_synced s2" "game_borders (game s2) = game_borders (game s)" by simp_all
        from "1.IH"(1) [OF Cons refl Ret_key_code True gr rec s2(1)] s2(2)
        show ?thesis by simp
      next
        case False
        with "1.prems" Cons Ret_key_code s1 show ?thesis
          by (auto simp: curses_wgetch_loop.simps [of e win mscl_used wch s] Let_def
                         car_synced_def
                   split: if_splits)
      qed
    next
      case (Ret_ok c)
      with "1.prems" Cons s1 show ?thesis
        by (auto simp: curses_wgetch_loop.simps [of e win mscl_used wch s] Let_def
                       car_synced_def
                 split: if_splits)
    next
      case (Ret_err en stored)
      show ?thesis
      proof (cases "en = EINTR")
        case True
        with "1.prems" Cons Ret_err s1 show ?thesis
          by (auto simp: curses_wgetch_loop.simps [of e win mscl_used wch s] Let_def
                         car_synced_def
                   split: if_splits)
      next
        case False
        let ?w = "case stored of None \<Rightarrow> wch | Some v \<Rightarrow> v"
        let ?s2 = "mscl (wstr ''Input Error'') (mscl_clear ?s1)"
        from "1.prems" Cons Ret_err False have
          rec: "curses_wgetch_loop e win True ?w ?s2 = Inr (r, wch', s')"
          by (simp add: curses_wgetch_loop.simps [of e win mscl_used wch s] Let_def)
        have s2: "car_synced ?s2" "game_borders (game ?s2) = game_borders (game s)"
          using s1 by (simp_all add: car_synced_def)
        from "1.IH"(2) [OF Cons refl Ret_err refl False rec s2(1)] s2(2)
        show ?thesis by simp
      qed
    qed
  qed
qed

text \<open>
  In every round of \<open>game_loop\<close>, when \<open>curses_wgetch\<close> has returned the previous
  position of the car is its position: \<open>game_update_screen\<close> ran at the top of the round,
  and a resize in between moves both alike.
\<close>

lemma game_loop_car_synced:
  "curses_wgetch e Gamewin wch (game_update_screen s0) = Inr (r, wch1, s)
   \<Longrightarrow> car_old_pos (car s) = car_pos (car s)"
  using curses_wgetch_loop_synced [of e Gamewin False wch "game_update_screen s0" r wch1 s]
        car_synced_game_update_screen [of s0]
  by (simp add: curses_wgetch_def car_synced_def)

lemma ex_tick_read:
  "curses_wgetch ex_env Gamewin 0 (game_update_screen ex_tick_state)
   = Inr (ERR, 0, ex_after_tick_read)"
  by (simp add: curses_wgetch_def curses_wgetch_loop.simps game_update_screen_def ex_defs
        emit_def car_position_changed_def Let_def sig_hdl_def)

subsection \<open>Calls that show no crash check\<close>

lemma quiet_iff: "quiet cs cs' = (\<exists>r. cs' = cs @ r \<and> list_all (\<lambda>c. \<not> crash_check c) r)"
  by (auto simp: quiet_def prefix_def)

lemma quiet_refl [simp]: "quiet cs cs"
  by (simp add: quiet_iff)

lemma quiet_trans [trans]: "quiet a b \<Longrightarrow> quiet b c \<Longrightarrow> quiet a c"
  by (auto simp: quiet_iff)

lemma quiet_append: "list_all (\<lambda>c. \<not> crash_check c) r \<Longrightarrow> quiet cs (cs @ r)"
  by (simp add: quiet_iff)

lemma msg_neq [simp]: "game_won_msg \<noteq> game_over_msg" "wstr ''Input Error'' \<noteq> game_over_msg"
  by (auto simp: game_won_msg_def game_over_msg_def wstr_def dest: arg_cong [of _ _ length])

lemma calls_sig_hdl [simp]: "calls (sig_hdl sig s) = calls s"
  by (cases sig) (simp_all add: sig_hdl_def)

lemma calls_fold_sig_hdl [simp]: "calls (fold sig_hdl sigs s) = calls s"
  by (induction sigs arbitrary: s) simp_all

lemma quiet_mscl: "msg \<noteq> game_over_msg \<Longrightarrow> quiet (calls s) (calls (mscl msg s))"
  by (simp add: mscl_def quiet_iff crash_check_def)

lemma quiet_mscl_clear: "quiet (calls s) (calls (mscl_clear s))"
  by (simp add: mscl_clear_def quiet_iff crash_check_def)

lemma quiet_goal_place: "quiet (calls s) (calls (goal_place s))"
  by (simp add: goal_place_def quiet_iff crash_check_def)

lemma quiet_game_update_screen: "quiet (calls s) (calls (game_update_screen s))"
  by (simp add: game_update_screen_def quiet_iff crash_check_def Let_def)

lemma quiet_level_resize: "quiet (calls s) (calls (level_resize s))"
  by (simp add: level_resize_def level_draw_def quiet_iff crash_check_def Let_def list_all_iff)

lemma quiet_curses_resize: "curses_resize e s = Inr s' \<Longrightarrow> quiet (calls s) (calls s')"
  by (auto simp: curses_resize_def curses_check_size_def curses_set_windows_def quiet_iff
                 crash_check_def Let_def
           split: if_splits)

lemma quiet_game_resize:
  assumes "game_resize e s = Inr s'"
  shows "quiet (calls s) (calls s')"
proof -
  from assms obtain s1 where
    cr: "curses_resize e s = Inr s1" and s': "s' = game_update_screen (goal_place (level_resize s1))"
    by (auto simp: game_resize_def split: sum.splits)
  have "quiet (calls s) (calls s1)" by (rule quiet_curses_resize [OF cr])
  also have "quiet (calls s1) (calls (level_resize s1))" by (rule quiet_level_resize)
  also have "quiet (calls (level_resize s1)) (calls (goal_place (level_resize s1)))"
    by (rule quiet_goal_place)
  also have "quiet (calls (goal_place (level_resize s1))) (calls s')"
    unfolding s' by (rule quiet_game_update_screen)
  finally show ?thesis .
qed

lemma quiet_finish:
  "quiet cs (calls s1) \<Longrightarrow> quiet cs (calls (if mscl_used then mscl_clear s1 else s1))"
  by (auto intro: quiet_trans quiet_mscl_clear)

lemma quiet_curses_wgetch_loop:
  "curses_wgetch_loop e win mscl_used wch s = Inr (r, wch', s') \<Longrightarrow> quiet (calls s) (calls s')"
proof (induction e win mscl_used wch s rule: curses_wgetch_loop.induct)
  case (1 e win mscl_used wch s)
  show ?case
  proof (cases "pending s")
    case Nil
    with "1.prems" show ?thesis
      by (simp add: curses_wgetch_loop.simps [of e win mscl_used wch s])
  next
    case (Cons ev rest)
    let ?s1 = "fold sig_hdl (ev_signals ev) (emit [Wget_wch win] (s\<lparr>pending := rest\<rparr>))"
    have s1: "quiet (calls s) (calls ?s1)"
      by (simp add: quiet_iff crash_check_def)
    show ?thesis
    proof (cases "ev_ret ev")
      case (Ret_key_code k)
      show ?thesis
      proof (cases "k = KEY_RESIZE")
        case True
        from "1.prems" Cons Ret_key_code True obtain s2 where
          gr: "game_resize e ?s1 = Inr s2" and
          rec: "curses_wgetch_loop e win mscl_used k s2 = Inr (r, wch', s')"
          by (auto simp: curses_wgetch_loop.simps [of e win mscl_used wch s] Let_def
                   split: sum.splits)
        note s1
        also note quiet_game_resize [OF gr]
        also note "1.IH"(1) [OF Cons refl Ret_key_code True gr rec]
        finally show ?thesis .
      next
        case False
        with "1.prems" Cons Ret_key_code have "s' = (if mscl_used then mscl_clear ?s1 else ?s1)"
          by (auto simp: curses_wgetch_loop.simps [of e win mscl_used wch s] Let_def)
        with quiet_finish [OF s1] show ?thesis by simp
      qed
    next
      case (Ret_ok c)
      with "1.prems" Cons have "s' = (if mscl_used then mscl_clear ?s1 else ?s1)"
        by (auto simp: curses_wgetch_loop.simps [of e win mscl_used wch s] Let_def)
      with quiet_finish [OF s1] show ?thesis by simp
    next
      case (Ret_err en stored)
      show ?thesis
      proof (cases "en = EINTR")
        case True
        with "1.prems" Cons Ret_err have "s' = (if mscl_used then mscl_clear ?s1 else ?s1)"
          by (auto simp: curses_wgetch_loop.simps [of e win mscl_used wch s] Let_def)
        with quiet_finish [OF s1] show ?thesis by simp
      next
        case False
        let ?w = "case stored of None \<Rightarrow> wch | Some v \<Rightarrow> v"
        let ?s2 = "mscl (wstr ''Input Error'') (mscl_clear ?s1)"
        from "1.prems" Cons Ret_err False have
          rec: "curses_wgetch_loop e win True ?w ?s2 = Inr (r, wch', s')"
          by (simp add: curses_wgetch_loop.simps [of e win mscl_used wch s] Let_def)
        note s1
        also have "quiet (calls ?s1) (calls (mscl_clear ?s1))" by (rule quiet_mscl_clear)
        also have "quiet (calls (mscl_clear ?s1)) (calls ?s2)" by (rule quiet_mscl) simp
        also note "1.IH"(2) [OF Cons refl Ret_err refl False rec]
        finally show ?thesis .
      qed
    qed
  qed
qed

lemma quiet_game_play_again_loop:
  "game_play_again_loop e wch s = Inr (wch', s') \<Longrightarrow> quiet (calls s) (calls s')"
proof (induction e wch s rule: game_play_again_loop.induct)
  case (1 e wch s)
  from "1.prems" obtain r wch1 s1 where
    g: "curses_wgetch e Msclwin wch s = Inr (r, wch1, s1)"
    by (auto simp: game_play_again_loop.simps [of e wch s] split: sum.splits)
  have q: "quiet (calls s) (calls s1)"
    using g unfolding curses_wgetch_def by (rule quiet_curses_wgetch_loop)
  show ?case
  proof (cases "wch1 \<noteq> of_char CHR ''y'' \<and> wch1 \<noteq> of_char CHR ''n''")
    case True
    with "1.prems" g have "game_play_again_loop e wch1 s1 = Inr (wch', s')"
      by (simp add: game_play_again_loop.simps [of e wch s])
    from quiet_trans [OF q "1.IH" [OF g refl refl True this]] show ?thesis .
  next
    case False
    with "1.prems" g have "s' = s1"
      by (auto simp: game_play_again_loop.simps [of e wch s])
    with q show ?thesis by simp
  qed
qed

lemma quiet_game_reset: "game_reset e s = Inr s' \<Longrightarrow> quiet (calls s) (calls s')"
  by (auto simp: game_reset_def quiet_iff crash_check_def Let_def split: sum.splits)

lemma quiet_game_play_again:
  assumes "game_play_again e msg s = Inr (b, s')"
  shows "quiet (calls (mscl msg s)) (calls s')"
proof -
  from assms obtain wch s1 where
    l: "game_play_again_loop e (env_uninit_wch e) (mscl msg s) = Inr (wch, s1)"
    by (auto simp: game_play_again_def split: sum.splits)
  have q: "quiet (calls (mscl msg s)) (calls (mscl_clear s1))"
    by (rule quiet_trans [OF quiet_game_play_again_loop [OF l] quiet_mscl_clear])
  show ?thesis
  proof (cases "wch = of_char CHR ''y''")
    case True
    with assms l have "game_reset e (mscl_clear s1) = Inr s'"
      by (auto simp: game_play_again_def Let_def split: sum.splits)
    from quiet_trans [OF q quiet_game_reset [OF this]] show ?thesis .
  next
    case False
    with assms l have "s' = mscl_clear s1"
      by (auto simp: game_play_again_def Let_def)
    with q show ?thesis by simp
  qed
qed

lemma quiet_game_won:
  assumes "game_won e s = Inr (b, s')"
  shows "quiet (calls (mscl game_won_msg s)) (calls s')"
proof -
  from assms obtain s1 where
    p: "game_play_again e game_won_msg s = Inr (b, s1)" and
    s': "s' = (if b then goal_place s1 else s1)"
    by (auto simp: game_won_def split: sum.splits)
  from quiet_game_play_again [OF p] have "quiet (calls (mscl game_won_msg s)) (calls s1)" .
  then show ?thesis unfolding s' by (auto intro: quiet_trans quiet_goal_place)
qed

lemmas ex_flags_defs =
  ex_flags_state_def ex_flags_read_def ex_flags_next_def ex_signal_state_def ex_signal_read_def
  ex_resized_def

lemma ex_flags_read_eq:
  "curses_wgetch ex_env Gamewin 0 (game_update_screen ex_flags_state) = Inr (ERR, 0, ex_flags_read)"
  by (simp add: eval_defs ex_defs ex_flags_defs)

lemma ex_signal_read_eq:
  "curses_wgetch ex_env Gamewin 0 (game_update_screen (ex_signal_state [SIGCONT, SIGTERM]))
   = Inr (ERR, 0, ex_signal_read 0 1 1)"
  "curses_wgetch ex_env Gamewin 0 (game_update_screen (ex_signal_state [SIGTERM]))
   = Inr (ERR, 0, ex_signal_read 0 0 1)"
  "curses_wgetch ex_env Gamewin 0 (game_update_screen (ex_signal_state []))
   = Inr (ERR, 0, ex_signal_read 0 0 0)"
  by (simp_all add: eval_defs ex_defs ex_flags_defs)

lemmas resize_eval_defs =
  game_resize_def curses_resize_def curses_check_size_def curses_set_windows_def
  level_resize_def level_draw_def goal_place_def shift_pos_def signed_divide_int_def upt_rec

subsection \<open>Accelerating from the start speed goes round in 26 steps\<close>

lemma ex_timer_at_start: "ex_timer = ex_timer_at (speed_step_width * 25)"
  by (simp add: ex_timer_def ex_timer_at_def start_speed_def speed_step_width_def)

lemma accelerate_step:
  "speed_step_width \<le> n \<Longrightarrow>
   timer_accelerate ex_env (ex_timer_at n) = Inr (ex_timer_at (n - speed_step_width))"
  by (simp add: timer_accelerate_def timer_settime_def ex_timer_at_def ex_env_def
                speed_step_width_def Let_def)

lemma accelerate_zero:
  "timer_accelerate ex_env (ex_timer_at 0) = Inr (ex_timer_at (speed_step_width * 25))"
  by (simp add: timer_accelerate_def timer_set_def timer_settime_def ex_timer_at_def ex_env_def
                start_speed_def speed_step_width_def Let_def)

text \<open>One more call from the \<open>m\<close>-th state of the round of 26.\<close>

lemma accelerate_next:
  assumes "m < 26"
  shows "timer_accelerate ex_env (ex_timer_at (speed_step_width * (25 - int m)))
         = Inr (ex_timer_at (speed_step_width * (25 - int (Suc m mod 26))))"
proof (cases "m = 25")
  case True
  then show ?thesis using accelerate_zero by simp
next
  case False
  with assms have lt: "m < 25" by simp
  then have "speed_step_width \<le> speed_step_width * (25 - int m)"
    by (simp add: speed_step_width_def)
  from accelerate_step [OF this] lt show ?thesis
    by (simp add: algebra_simps)
qed

lemma accelerate_orbit:
  "m < 26 \<Longrightarrow>
   timer_accelerate_times ex_env n (ex_timer_at (speed_step_width * (25 - int m)))
   = Inr (ex_timer_at (speed_step_width * (25 - int ((m + n) mod 26))))"
proof (induction n arbitrary: m)
  case 0
  then show ?case by simp
next
  case (Suc n)
  have "Suc m mod 26 < 26" by simp
  moreover have "(Suc m mod 26 + n) mod 26 = (m + Suc n) mod 26"
    by (simp add: mod_add_left_eq)
  ultimately show ?case
    using Suc.IH [of "Suc m mod 26"] accelerate_next [OF Suc.prems] by simp
qed

subsection \<open>Slowing down from the start speed reaches one second\<close>

lemma slowdown_step:
  "0 < n \<Longrightarrow> n + speed_step_width < 1000000000 \<Longrightarrow>
   timer_slowdown ex_kernel_env (ex_timer_at n) = Inr (ex_timer_at (n + speed_step_width))"
  by (simp add: timer_slowdown_def timer_settime_def ex_timer_at_def ex_kernel_env_def
                ex_env_def speed_step_width_def LONG_MAX_def Let_def)

lemma slowdown_refused:
  "0 < n \<Longrightarrow> n < 1000000000 \<Longrightarrow> 1000000000 \<le> n + speed_step_width \<Longrightarrow>
   timer_slowdown ex_kernel_env (ex_timer_at n) = Inl (Exit Die_strerror)"
  by (simp add: timer_slowdown_def timer_settime_def ex_timer_at_def ex_kernel_env_def
                ex_env_def speed_step_width_def LONG_MAX_def Let_def)

lemma slowdown_times_below_second:
  "0 < n \<Longrightarrow> n + int k * speed_step_width < 1000000000 \<Longrightarrow>
   timer_slowdown_times ex_kernel_env k (ex_timer_at n)
   = Inr (ex_timer_at (n + int k * speed_step_width))"
proof (induction k arbitrary: n)
  case 0
  show ?case by simp
next
  case (Suc k)
  from Suc.prems have step: "n + speed_step_width < 1000000000"
    by (simp add: speed_step_width_def algebra_simps)
  from Suc.prems have
    "0 < n + speed_step_width"
    "n + speed_step_width + int k * speed_step_width < 1000000000"
    by (simp_all add: speed_step_width_def algebra_simps)
  from Suc.IH [OF this] slowdown_step [OF Suc.prems(1) step] show ?case
    by (simp add: algebra_simps)
qed

subsection \<open>Evaluating the level functions\<close>

lemmas level_eval_defs =
  level_setup_def level_file_read_def level_file_readlines_def level_file_readlines_from.simps
  level_file_readlines_more.simps fgetws_def level_init_def level_init_row_def
  level_init_positions_def find_car_def curses_check_size_def level_draw_def goal_place_def
  car_reset_def car_set_direction_def emit_def
  GAMEWIN_COLS_def GAMEWIN_LINES_def Let_def

lemmas level_ex_defs =
  ex_startup_state_def ex_level_env_def ex_env_def
  wstr_def newline_def chars_car_right_def chars_car_left_def chars_car_up_def chars_car_down_def
  chars_goal_def BUFSIZ_def INT_MAX_def default_borders_def

section \<open>The properties\<close>

text \<open>
  C1, as the code has it. A round of \<open>game_loop\<close> in which the timer has fired moves the
  car and calls \<open>game_continue\<close>. When the new position is not the goal, differs from
  the previous position and lies in the Playable Area (or there are no borders), and
  reading the cell at the new position fails (\<open>mvwinnwstr\<close> returns \<open>ERR\<close>), then
  \<open>game_continue\<close> returns false, with no prompt, and the round ends in the \<open>break\<close>
  of the loop: \<open>game_loop\<close> makes no further round, the game is over. It does not go on
  as it does for a blank cell.
\<close>

theorem read_failure_ends_game_loop:
  assumes w: "curses_wgetch e Gamewin wch (game_update_screen s0) = Inr (ERR, wch1, s2)"
      and tick: "timer_finished (timer s2) \<noteq> 0"
      and s: "s = car_move s2"
      and not_goal: "car_pos (car s) \<noteq> goal_pos (goal s)"
      and changed: "car_position_changed s"
      and inside: "in_playable_area s (car_pos (car s)) \<or> \<not> game_borders (game s)"
      and fails: "env_mvwinnwstr e (pos_y (car_pos (car s))) (pos_x (car_pos (car s))) = None"
  shows "game_continue e s =
           Inr (False, emit [Mvwinnwstr Gamewin (pos_y (car_pos (car s))) (pos_x (car_pos (car s)))] s)
       \<and> game_loop_body e wch s0 =
           Inr (Break (emit [Mvwinnwstr Gamewin (pos_y (car_pos (car s))) (pos_x (car_pos (car s)))] s))
       \<and> game_loop_rounds e wch s0 =
           Inr (emit [Mvwinnwstr Gamewin (pos_y (car_pos (car s))) (pos_x (car_pos (car s)))] s)"
proof -
  from not_goal have ng: "\<not> (pos_x (car_pos (car s)) = pos_x (goal_pos (goal s))
                          \<and> pos_y (car_pos (car s)) = pos_y (goal_pos (goal s)))"
    by (auto intro: Pos.equality)
  from inside have nb: "\<not> (game_borders (game s)
                            \<and> (pos_x (car_pos (car s)) < 0 \<or> pos_y (car_pos (car s)) < 0
                               \<or> pos_x (car_pos (car s)) = GAMEWIN_COLS s
                               \<or> pos_y (car_pos (car s)) = GAMEWIN_LINES s))"
    by (auto simp: in_playable_area_def)
  have gc: "game_continue e s =
           Inr (False, emit [Mvwinnwstr Gamewin (pos_y (car_pos (car s))) (pos_x (car_pos (car s)))] s)"
    using ng changed nb fails by (auto simp: game_continue_def Let_def)
  have body: "game_loop_body e wch s0 =
           Inr (Break (emit [Mvwinnwstr Gamewin (pos_y (car_pos (car s))) (pos_x (car_pos (car s)))] s))"
    using w tick gc [unfolded s] by (simp add: game_loop_body_def s)
  from gc body game_loop_rounds_Break [OF body] show ?thesis by simp
qed

theorem read_failure_ends_game_loop_witness:
  "curses_wgetch ex_fail_env Gamewin 0 (game_update_screen ex_tick_state)
     = Inr (ERR, 0, ex_after_tick_read)
   \<and> timer_finished (timer ex_after_tick_read) \<noteq> 0
   \<and> car_pos (car (car_move ex_after_tick_read)) \<noteq> goal_pos (goal (car_move ex_after_tick_read))
   \<and> car_position_changed (car_move ex_after_tick_read)
   \<and> in_playable_area (car_move ex_after_tick_read) (car_pos (car (car_move ex_after_tick_read)))
   \<and> env_mvwinnwstr ex_fail_env 10 39 = None
   \<and> game_loop_body ex_fail_env 0 ex_tick_state
       = Inr (Break (emit [Mvwinnwstr Gamewin 10 39] (car_move ex_after_tick_read)))
   \<and> game_loop_rounds ex_fail_env 0 ex_tick_state
       = Inr (emit [Mvwinnwstr Gamewin 10 39] (car_move ex_after_tick_read))"
  using read_failure_ends_game_loop
          [of ex_fail_env 0 ex_tick_state 0 ex_after_tick_read "car_move ex_after_tick_read"]
  by (simp add: eval_defs ex_defs ex_fail_env_def in_playable_area_def)

text \<open>
  C1 as the specification states it fails: in the session above the timer fires, the car
  moves from column 38 to the free cell at column 39, and the read of that cell fails.
  The round ends in \<open>Break\<close>; had the cell read as blank, it would end in \<open>Continue\<close>.
\<close>

theorem read_failure_is_not_blank:
  "env_mvwinnwstr ex_fail_env 10 39 = None
   \<and> env_mvwinnwstr ex_env 10 39 = Some (of_char CHR '' '')
   \<and> game_loop_body ex_fail_env 0 ex_tick_state
       = Inr (Break (ex_state\<lparr>car := ex_moved_car, timer := ex_timer\<lparr>timer_finished := 1\<rparr>,
                              calls := ex_tick_calls\<rparr>))
   \<and> game_loop_body ex_env 0 ex_tick_state
       = Inr (Continue 0 (ex_state\<lparr>car := ex_moved_car, calls := ex_tick_calls\<rparr>))"
  by (simp add: eval_defs ex_defs ex_fail_env_def)

text \<open>
  C2, as the code has it. In a round of \<open>game_loop\<close> in which \<open>curses_wgetch\<close> returns
  \<open>ERR\<close> (the read was interrupted), the flags are looked at in the order: timer fired
  (\<open>timer.finished\<close>), then resize request (\<open>game.need_resize\<close>), then termination
  request (\<open>game.need_terminate\<close>). The round does what the first flag that is set asks
  for, and nothing for the flags after it: the tick (move the car, \<open>game_continue\<close>,
  clear \<open>timer.finished\<close>), or the resize (\<open>game_resize\<close>, clear \<open>game.need_resize\<close>),
  or the termination (\<open>DIE(NULL)\<close>); with no flag set it does nothing.
\<close>

theorem game_loop_flag_priority:
  assumes "curses_wgetch e Gamewin wch (game_update_screen s) = Inr (ERR, wch1, s2)"
  shows "(timer_finished (timer s2) \<noteq> 0 \<longrightarrow>
            game_loop_body e wch s =
              (case game_continue e (car_move s2) of
                 Inl x \<Rightarrow> Inl x
               | Inr (c, s3) \<Rightarrow>
                   if c then Inr (Continue wch1 (s3\<lparr>timer := (timer s3)\<lparr>timer_finished := 0\<rparr>\<rparr>))
                   else Inr (Break s3)))
       \<and> (timer_finished (timer s2) = 0 \<and> game_need_resize (game s2) \<noteq> 0 \<longrightarrow>
            game_loop_body e wch s =
              (case game_resize e s2 of
                 Inl x \<Rightarrow> Inl x
               | Inr s3 \<Rightarrow> Inr (Continue wch1 (s3\<lparr>game := (game s3)\<lparr>game_need_resize := 0\<rparr>\<rparr>))))
       \<and> (timer_finished (timer s2) = 0 \<and> game_need_resize (game s2) = 0
            \<and> game_need_terminate (game s2) \<noteq> 0 \<longrightarrow>
            game_loop_body e wch s = Inl (Exit Die_null))
       \<and> (timer_finished (timer s2) = 0 \<and> game_need_resize (game s2) = 0
            \<and> game_need_terminate (game s2) = 0 \<longrightarrow>
            game_loop_body e wch s = Inr (Continue wch1 s2))"
  using assms by (auto simp: game_loop_body_def split: sum.splits prod.splits)

theorem game_loop_flag_priority_witness:
  "curses_wgetch ex_env Gamewin 0 (game_update_screen ex_flags_state) = Inr (ERR, 0, ex_flags_read)
   \<and> timer_finished (timer ex_flags_read) \<noteq> 0
   \<and> game_loop_body ex_env 0 ex_flags_state = Inr (Continue 0 ex_flags_next)
   \<and> curses_wgetch ex_env Gamewin 0 (game_update_screen (ex_signal_state [SIGCONT, SIGTERM]))
       = Inr (ERR, 0, ex_signal_read 0 1 1)
   \<and> timer_finished (timer (ex_signal_read 0 1 1)) = 0
   \<and> game_need_resize (game (ex_signal_read 0 1 1)) \<noteq> 0
   \<and> game_loop_body ex_env 0 (ex_signal_state [SIGCONT, SIGTERM]) = Inr (Continue 0 ex_resized)
   \<and> curses_wgetch ex_env Gamewin 0 (game_update_screen (ex_signal_state [SIGTERM]))
       = Inr (ERR, 0, ex_signal_read 0 0 1)
   \<and> timer_finished (timer (ex_signal_read 0 0 1)) = 0
   \<and> game_need_resize (game (ex_signal_read 0 0 1)) = 0
   \<and> game_need_terminate (game (ex_signal_read 0 0 1)) \<noteq> 0
   \<and> game_loop_body ex_env 0 (ex_signal_state [SIGTERM]) = Inl (Exit Die_null)
   \<and> curses_wgetch ex_env Gamewin 0 (game_update_screen (ex_signal_state []))
       = Inr (ERR, 0, ex_signal_read 0 0 0)
   \<and> timer_finished (timer (ex_signal_read 0 0 0)) = 0
   \<and> game_need_resize (game (ex_signal_read 0 0 0)) = 0
   \<and> game_need_terminate (game (ex_signal_read 0 0 0)) = 0
   \<and> game_loop_body ex_env 0 (ex_signal_state []) = Inr (Continue 0 (ex_signal_read 0 0 0))"
proof -
  have tick: "game_loop_body ex_env 0 ex_flags_state = Inr (Continue 0 ex_flags_next)"
    using game_loop_flag_priority [OF ex_flags_read_eq]
    by (simp add: eval_defs ex_defs ex_flags_defs)
  have resize:
    "game_loop_body ex_env 0 (ex_signal_state [SIGCONT, SIGTERM]) = Inr (Continue 0 ex_resized)"
    using game_loop_flag_priority [OF ex_signal_read_eq(1)]
    by (simp add: eval_defs resize_eval_defs ex_defs ex_flags_defs)
  have terminate: "game_loop_body ex_env 0 (ex_signal_state [SIGTERM]) = Inl (Exit Die_null)"
    using game_loop_flag_priority [OF ex_signal_read_eq(2)]
    by (simp add: ex_defs ex_flags_defs)
  have none:
    "game_loop_body ex_env 0 (ex_signal_state []) = Inr (Continue 0 (ex_signal_read 0 0 0))"
    using game_loop_flag_priority [OF ex_signal_read_eq(3)]
    by (simp add: ex_defs ex_flags_defs)
  show ?thesis
    using tick resize terminate none ex_flags_read_eq ex_signal_read_eq
    by (simp add: ex_defs ex_flags_defs)
qed

text \<open>
  C2 as the specification states it fails: with all three flags set when the read
  returns, the round handles the tick, not the resize request. The car has moved, the
  timer flag is cleared, and the resize and termination requests are still pending.
\<close>

theorem game_loop_resize_not_first:
  "timer_finished (timer ex_flags_read) = 1
   \<and> game_need_resize (game ex_flags_read) = 1
   \<and> game_need_terminate (game ex_flags_read) = 1
   \<and> car_pos (car ex_flags_read) = \<lparr>pos_x = 38, pos_y = 10\<rparr>
   \<and> curses_wgetch ex_env Gamewin 0 (game_update_screen ex_flags_state) = Inr (ERR, 0, ex_flags_read)
   \<and> game_loop_body ex_env 0 ex_flags_state = Inr (Continue 0 ex_flags_next)
   \<and> car_pos (car ex_flags_next) = \<lparr>pos_x = 39, pos_y = 10\<rparr>
   \<and> timer_finished (timer ex_flags_next) = 0
   \<and> game_need_resize (game ex_flags_next) = 1
   \<and> game_need_terminate (game ex_flags_next) = 1"
  by (simp add: eval_defs ex_defs ex_flags_defs)

text \<open>
  C3. When the position of the car is the position of the goal, \<open>game_continue\<close> is
  \<open>game_won\<close> after a redraw, whatever the previous position, the borders and the cell
  under the car are: none of the crash checks is reached, also when the goal lies on the
  border. When \<open>game_continue\<close> returns, the calls it made start with the redraw and the
  prompt \<open>Won! Play again? [y/n]\<close> on the message line, and none of its calls is a read
  of the cell under the car or the prompt of \<open>game_over\<close>. (The cell of the goal shows
  the goal character, which the check of the cell under the car would take for an
  obstacle.)
\<close>

theorem goal_wins_before_crash_checks:
  assumes "pos_x (car_pos (car s)) = pos_x (goal_pos (goal s))"
      and "pos_y (car_pos (car s)) = pos_y (goal_pos (goal s))"
  shows "game_continue e s = game_won e (game_update_screen s)
       \<and> (\<forall>b s'. game_continue e s = Inr (b, s') \<longrightarrow>
             prefix (calls (mscl game_won_msg (game_update_screen s))) (calls s')
             \<and> quiet (calls s) (calls s'))"
proof (intro conjI allI impI)
  show eq: "game_continue e s = game_won e (game_update_screen s)"
    using assms by (simp add: game_continue_def)
  fix b s'
  assume "game_continue e s = Inr (b, s')"
  with eq have w: "game_won e (game_update_screen s) = Inr (b, s')" by simp
  note q = quiet_game_won [OF w]
  then show "prefix (calls (mscl game_won_msg (game_update_screen s))) (calls s')"
    by (simp add: quiet_def)
  have "quiet (calls s) (calls (game_update_screen s))" by (rule quiet_game_update_screen)
  also have "quiet (calls (game_update_screen s)) (calls (mscl game_won_msg (game_update_screen s)))"
    by (rule quiet_mscl) simp
  also note q
  finally show "quiet (calls s) (calls s')" .
qed

theorem goal_wins_before_crash_checks_witness:
  "pos_x (car_pos (car ex_goal_state)) = pos_x (goal_pos (goal ex_goal_state))
   \<and> pos_y (car_pos (car ex_goal_state)) = pos_y (goal_pos (goal ex_goal_state))
   \<and> car_position_changed ex_goal_state
   \<and> env_mvwinnwstr ex_goal_env 11 40 = Some (of_char CHR ''x'')
   \<and> game_continue ex_goal_env ex_goal_state = Inr (False, ex_goal_after)
   \<and> prefix (calls (mscl game_won_msg (game_update_screen ex_goal_state))) (calls ex_goal_after)
   \<and> quiet (calls ex_goal_state) (calls ex_goal_after)
   \<and> pos_x (car_pos (car ex_border_goal_state)) = pos_x (goal_pos (goal ex_border_goal_state))
   \<and> pos_y (car_pos (car ex_border_goal_state)) = pos_y (goal_pos (goal ex_border_goal_state))
   \<and> game_borders (game ex_border_goal_state)
   \<and> pos_x (car_pos (car ex_border_goal_state)) = GAMEWIN_COLS ex_border_goal_state
   \<and> game_continue ex_env ex_border_goal_state = Inr (False, ex_border_goal_after)
   \<and> prefix (calls (mscl game_won_msg (game_update_screen ex_border_goal_state)))
         (calls ex_border_goal_after)
   \<and> quiet (calls ex_border_goal_state) (calls ex_border_goal_after)"
proof -
  note won_defs = game_won_def game_play_again_def game_play_again_loop.simps mscl_def
    mscl_clear_def
  have ev: "game_continue ex_goal_env ex_goal_state = Inr (False, ex_goal_after)"
    by (simp add: eval_defs ex_defs ex_goal_env_def ex_goal_state_def ex_goal_after_def won_defs)
  have at_goal:
    "pos_x (car_pos (car ex_goal_state)) = pos_x (goal_pos (goal ex_goal_state))"
    "pos_y (car_pos (car ex_goal_state)) = pos_y (goal_pos (goal ex_goal_state))"
    by (simp_all add: ex_defs ex_goal_state_def)
  have cell:
    "car_position_changed ex_goal_state"
    "env_mvwinnwstr ex_goal_env 11 40 = Some (of_char CHR ''x'')"
    by (simp_all add: ex_defs ex_goal_env_def ex_goal_state_def car_position_changed_def
          chars_goal_def)
  from goal_wins_before_crash_checks [OF at_goal, of ex_goal_env] ev
  have calls:
    "prefix (calls (mscl game_won_msg (game_update_screen ex_goal_state))) (calls ex_goal_after)
     \<and> quiet (calls ex_goal_state) (calls ex_goal_after)"
    by blast
  have ev_b: "game_continue ex_env ex_border_goal_state = Inr (False, ex_border_goal_after)"
    by (simp add: eval_defs ex_defs ex_border_goal_state_def ex_border_goal_after_def won_defs)
  have at_goal_b:
    "pos_x (car_pos (car ex_border_goal_state)) = pos_x (goal_pos (goal ex_border_goal_state))"
    "pos_y (car_pos (car ex_border_goal_state)) = pos_y (goal_pos (goal ex_border_goal_state))"
    by (simp_all add: ex_defs ex_border_goal_state_def)
  have border:
    "game_borders (game ex_border_goal_state)"
    "pos_x (car_pos (car ex_border_goal_state)) = GAMEWIN_COLS ex_border_goal_state"
    by (simp_all add: ex_defs ex_border_goal_state_def GAMEWIN_COLS_def)
  from goal_wins_before_crash_checks [OF at_goal_b, of ex_env] ev_b
  have calls_b:
    "prefix (calls (mscl game_won_msg (game_update_screen ex_border_goal_state)))
       (calls ex_border_goal_after)
     \<and> quiet (calls ex_border_goal_state) (calls ex_border_goal_after)"
    by blast
  from ev at_goal cell calls ev_b at_goal_b border calls_b show ?thesis by blast
qed

text \<open>
  C4, on the code. From the start speed (250000000 ns, 25 steps of 10000000 ns),
  \<open>timer_accelerate\<close> reaches the interval zero with its 25th call: the timer is
  disabled, and the next call takes it for a timer that was never set and gives it the
  start speed again. So the interval goes round in 26 calls, every call changes it, and
  no call is ever a no-op; the interval is never negative.
\<close>

theorem timer_accelerate_never_settles:
  "timer_accelerate_times ex_env 25 ex_timer = Inr (ex_timer_at 0)
   \<and> timer_accelerate_times ex_env 26 ex_timer = Inr ex_timer
   \<and> (\<forall>n. \<exists>t t'. timer_accelerate_times ex_env n ex_timer = Inr t
                 \<and> timer_accelerate ex_env t = Inr t'
                 \<and> it_interval (timer_its t') \<noteq> it_interval (timer_its t)
                 \<and> 0 \<le> tv_nsec (it_interval (timer_its t)) \<and> tv_sec (it_interval (timer_its t)) = 0)"
proof (intro conjI allI)
  show "timer_accelerate_times ex_env 25 ex_timer = Inr (ex_timer_at 0)"
    using accelerate_orbit [of 0 25] by (simp add: ex_timer_at_start)
  show "timer_accelerate_times ex_env 26 ex_timer = Inr ex_timer"
    using accelerate_orbit [of 0 26] by (simp add: ex_timer_at_start)
  fix n
  let ?t = "ex_timer_at (speed_step_width * (25 - int (n mod 26)))"
  let ?t' = "ex_timer_at (speed_step_width * (25 - int (Suc (n mod 26) mod 26)))"
  have o: "timer_accelerate_times ex_env n ex_timer = Inr ?t"
    using accelerate_orbit [of 0 n] by (simp add: ex_timer_at_start)
  have lt: "n mod 26 < 26" by simp
  have step: "timer_accelerate ex_env ?t = Inr ?t'"
    by (rule accelerate_next [OF lt])
  from lt have ne: "int (Suc (n mod 26) mod 26) \<noteq> int (n mod 26)" "int (n mod 26) \<le> 25"
    by (auto simp: mod_Suc)
  show "\<exists>t t'. timer_accelerate_times ex_env n ex_timer = Inr t
                 \<and> timer_accelerate ex_env t = Inr t'
                 \<and> it_interval (timer_its t') \<noteq> it_interval (timer_its t)
                 \<and> 0 \<le> tv_nsec (it_interval (timer_its t)) \<and> tv_sec (it_interval (timer_its t)) = 0"
    using o step ne
    by (intro exI [of _ ?t] exI [of _ ?t']) (simp add: ex_timer_at_def speed_step_width_def)
qed

text \<open>
  C5, on the code. \<open>timer_slowdown\<close> carries into the seconds only when \<open>tv_nsec\<close>
  passes \<open>LONG_MAX\<close>, not when it passes 999999999. From the start speed, 74 calls take
  the interval to 990000000 ns; the timer is armed, and the 75th call hands
  \<open>tv_nsec = 1000000000\<close> to \<open>timer_settime\<close>, which the kernel refuses, and the
  program dies with \<open>strerror(errno)\<close>: the call does not produce a larger interval.
  And where the carry is made, at \<open>tv_nsec = LONG_MAX\<close>, the sum overflows and the new
  \<open>tv_nsec\<close> is negative. A disabled timer is returned as it is.
\<close>

theorem timer_slowdown_dies_at_one_second:
  "timer_slowdown_times ex_kernel_env 74 ex_timer = Inr (ex_timer_at 990000000)
   \<and> timer_armed (ex_timer_at 990000000)
   \<and> timer_slowdown ex_kernel_env (ex_timer_at 990000000) = Inl (Exit Die_strerror)
   \<and> timer_slowdown_times ex_kernel_env 75 ex_timer = Inl (Exit Die_strerror)
   \<and> timer_armed (ex_timer_at LONG_MAX)
   \<and> timer_slowdown ex_env (ex_timer_at LONG_MAX)
       = Inr \<lparr>timer_its = \<lparr>it_value = \<lparr>tv_sec = 1, tv_nsec = - 9223372036844775809\<rparr>,
                             it_interval = \<lparr>tv_sec = 1, tv_nsec = - 9223372036844775809\<rparr>\<rparr>,
              timer_finished = 0\<rparr>
   \<and> \<not> timer_armed (ex_timer_at 0)
   \<and> timer_slowdown ex_kernel_env (ex_timer_at 0) = Inr (ex_timer_at 0)"
proof -
  have start: "ex_timer = ex_timer_at 250000000"
    by (simp add: ex_timer_def ex_timer_at_def start_speed_def)
  have below: "timer_slowdown_times ex_kernel_env 74 ex_timer = Inr (ex_timer_at 990000000)"
    using slowdown_times_below_second [of 250000000 74]
    by (simp add: start speed_step_width_def)
  have refused: "timer_slowdown ex_kernel_env (ex_timer_at 990000000) = Inl (Exit Die_strerror)"
    by (rule slowdown_refused) (simp_all add: speed_step_width_def)
  have snoc: "timer_slowdown_times e (Suc k) t =
       (case timer_slowdown_times e k t of Inl x \<Rightarrow> Inl x | Inr t1 \<Rightarrow> timer_slowdown e t1)"
    for e k t
  proof (induction k arbitrary: t)
    case 0
    show ?case by (cases "timer_slowdown e t") simp_all
  next
    case (Suc k)
    show ?case
    proof (cases "timer_slowdown e t")
      case (Inl x)
      then show ?thesis by simp
    next
      case (Inr t1)
      with Suc.IH [of t1] show ?thesis by simp
    qed
  qed
  have "timer_slowdown_times ex_kernel_env (Suc 74) ex_timer = Inl (Exit Die_strerror)"
    by (simp only: snoc [of ex_kernel_env 74 ex_timer] below sum.case refused)
  then have dies: "timer_slowdown_times ex_kernel_env 75 ex_timer = Inl (Exit Die_strerror)"
    by simp
  have armed: "timer_armed (ex_timer_at 990000000)" "timer_armed (ex_timer_at LONG_MAX)"
    "\<not> timer_armed (ex_timer_at 0)"
    by (simp_all add: timer_armed_def ex_timer_at_def LONG_MAX_def)
  have carry: "timer_slowdown ex_env (ex_timer_at LONG_MAX)
       = Inr \<lparr>timer_its = \<lparr>it_value = \<lparr>tv_sec = 1, tv_nsec = - 9223372036844775809\<rparr>,
                             it_interval = \<lparr>tv_sec = 1, tv_nsec = - 9223372036844775809\<rparr>\<rparr>,
              timer_finished = 0\<rparr>"
    by (simp add: timer_slowdown_def timer_settime_def ex_timer_at_def ex_env_def
                  speed_step_width_def LONG_MAX_def wrap_long_def Let_def)
  have disabled: "timer_slowdown ex_kernel_env (ex_timer_at 0) = Inr (ex_timer_at 0)"
    by (simp add: timer_slowdown_def ex_timer_at_def Let_def)
  from below armed refused dies carry disabled show ?thesis by simp
qed

text \<open>
  C6. From each of the four directions, \<open>car_turn_left\<close> followed by \<open>car_turn_right\<close>
  gives the direction back, and so does \<open>car_turn_right\<close> followed by \<open>car_turn_left\<close>.
  A turn changes the direction and the glyph \<open>car.car\<close> (to the glyph of the new
  direction) and nothing else of the car: not its position, its previous position or its
  start.
\<close>

theorem car_turn_round_trip:
  "car_direction (car_turn_right (car_turn_left c)) = car_direction c
   \<and> car_direction (car_turn_left (car_turn_right c)) = car_direction c
   \<and> car_turn_left c = c\<lparr>car_direction := car_direction (car_turn_left c),
                           car_car := car_car (car_turn_left c)\<rparr>
   \<and> car_turn_right c = c\<lparr>car_direction := car_direction (car_turn_right c),
                            car_car := car_car (car_turn_right c)\<rparr>
   \<and> car_pos (car_turn_left c) = car_pos c \<and> car_pos (car_turn_right c) = car_pos c
   \<and> car_turn_left (car_turn_right c) = car_set_direction (car_direction c) c
   \<and> car_turn_right (car_turn_left c) = car_set_direction (car_direction c) c"
  by (cases "car_direction c")
     (simp_all add: car_turn_left_def car_turn_right_def car_set_direction_def)

text \<open>
  C7. In wrap mode (no borders) the game window is \<open>GAMEWIN_COLS\<close> columns wide. A car
  that faces right in the rightmost column, \<open>GAMEWIN_COLS - 1\<close>, is moved by \<open>car_move\<close>
  to column 0 of the same row; a car that faces left in column 0 is moved to the
  rightmost column of the same row. This holds for every row.
\<close>

theorem car_move_wraps:
  assumes "\<not> game_borders (game s)"
  shows "(car_direction (car s) = RIGHT \<and> pos_x (car_pos (car s)) = GAMEWIN_COLS s - 1
            \<longrightarrow> car_pos (car (car_move s)) = (car_pos (car s))\<lparr>pos_x := 0\<rparr>)
       \<and> (car_direction (car s) = LEFT \<and> pos_x (car_pos (car s)) = 0
            \<longrightarrow> car_pos (car (car_move s)) = (car_pos (car s))\<lparr>pos_x := GAMEWIN_COLS s - 1\<rparr>)"
  using assms by (simp add: car_go_defs Let_def)

theorem car_move_wraps_witness:
  "\<not> game_borders (game ex_wrap_state)
   \<and> GAMEWIN_COLS ex_wrap_state = 80
   \<and> car_pos (car (car_move (ex_wrap_state\<lparr>car := ex_car\<lparr>car_pos := \<lparr>pos_x = 79, pos_y = 7\<rparr>\<rparr>\<rparr>)))
       = \<lparr>pos_x = 0, pos_y = 7\<rparr>
   \<and> car_pos (car (car_move (ex_wrap_state\<lparr>car := ex_car\<lparr>car_direction := LEFT,
                                                  car_pos := \<lparr>pos_x = 0, pos_y = 7\<rparr>\<rparr>\<rparr>)))
       = \<lparr>pos_x = 79, pos_y = 7\<rparr>"
  using car_move_wraps [of "ex_wrap_state\<lparr>car := ex_car\<lparr>car_pos := \<lparr>pos_x = 79, pos_y = 7\<rparr>\<rparr>\<rparr>"]
        car_move_wraps [of "ex_wrap_state\<lparr>car := ex_car\<lparr>car_direction := LEFT,
                                                  car_pos := \<lparr>pos_x = 0, pos_y = 7\<rparr>\<rparr>\<rparr>"]
  by (simp add: ex_wrap_state_def ex_state_def ex_car_def GAMEWIN_COLS_def)

text \<open>
  C8, on the code. \<open>level_init\<close> asks each row once whether it holds a goal marker, so
  it counts the rows that hold one, not the markers. A level whose first row holds two
  goal markers and whose second row holds the car is accepted: \<open>level_setup\<close> returns,
  the goal at the first of the two markers. A level with four goal markers in two rows
  is refused with the count 2. In the same way a row with two car markers counts as one
  start: the level is accepted and the second marker stays in the grid.
\<close>

theorem level_init_counts_rows:
  "level_setup (ex_level_env ex_two_goals_level) ex_startup_state
     = Inr (ex_loaded [wstr ''xx'', wstr '' ''])
   \<and> level_setup (ex_level_env ex_four_goals_level) ex_startup_state
     = Inl (Exit (Die_goal_count 2))
   \<and> level_setup (ex_level_env ex_two_cars_level) ex_startup_state
     = Inr (ex_loaded [wstr ''x'', of_char CHR '' '' # [chars_car_right]])"
  by (simp add: level_eval_defs level_ex_defs ex_two_goals_level_def ex_four_goals_level_def
        ex_two_cars_level_def ex_loaded_def upt_rec)

text \<open>
  C9, on the code. A row that holds the goal marker is not searched for the car
  (\<open>continue\<close>). The level of three rows of three columns with the car, facing right,
  at column 0 and the goal at column 2 of the middle row holds one goal marker and one
  start marker; \<open>level_file_read\<close> reads it, and \<open>level_init\<close> dies with "0 start
  positions in your level file".
\<close>

theorem level_same_row_rejected:
  "level_file_read (ex_level_env ex_same_row_level) ex_startup_state
     = Inr (ex_startup_state\<lparr>game := (game ex_startup_state)
              \<lparr>game_field := [wstr ''   '', chars_car_right # wstr '' x'', wstr ''   ''],
               game_lines := 3\<rparr>\<rparr>)
   \<and> level_setup (ex_level_env ex_same_row_level) ex_startup_state
     = Inl (Exit (Die_start_count 0))"
  by (simp add: level_eval_defs level_ex_defs ex_same_row_level_def upt_rec)

text \<open>
  C10. With borders, \<open>car_move\<close> changes one coordinate of the position by one, the one
  of the axis the car faces, from every position and in every direction; so the new
  position is not the old one. In the round of \<open>game_loop\<close>, when \<open>curses_wgetch\<close> has
  returned, the previous position \<open>car.old_pos\<close> is the position, so after the
  \<open>car_move\<close> of the round \<open>car_position_changed\<close> fails (the branch "the car did not
  move" of \<open>game_continue\<close> is taken) exactly when there are no borders and the game
  window is one cell wide along the axis the car faces, the car being in that cell.
\<close>

theorem bordered_move_changes_position:
  "(game_borders (game s) \<longrightarrow>
      car_pos (car (car_move s)) \<noteq> car_pos (car s)
      \<and> car_pos (car (car_move s)) =
          (case car_direction (car s) of
             DOWN \<Rightarrow> (car_pos (car s))\<lparr>pos_y := pos_y (car_pos (car s)) + 1\<rparr>
           | LEFT \<Rightarrow> (car_pos (car s))\<lparr>pos_x := pos_x (car_pos (car s)) - 1\<rparr>
           | RIGHT \<Rightarrow> (car_pos (car s))\<lparr>pos_x := pos_x (car_pos (car s)) + 1\<rparr>
           | UP \<Rightarrow> (car_pos (car s))\<lparr>pos_y := pos_y (car_pos (car s)) - 1\<rparr>))
   \<and> (curses_wgetch e Gamewin wch (game_update_screen s0) = Inr (r, wch1, s) \<longrightarrow>
        car_old_pos (car s) = car_pos (car s)
        \<and> (game_borders (game s) \<longrightarrow> car_position_changed (car_move s))
        \<and> (\<not> car_position_changed (car_move s)) =
            (\<not> game_borders (game s)
             \<and> (case car_direction (car s) of
                   DOWN \<Rightarrow> GAMEWIN_LINES s = 1 \<and> pos_y (car_pos (car s)) = 0
                 | LEFT \<Rightarrow> GAMEWIN_COLS s = 1 \<and> pos_x (car_pos (car s)) = 0
                 | RIGHT \<Rightarrow> GAMEWIN_COLS s = 1 \<and> pos_x (car_pos (car s)) = 0
                 | UP \<Rightarrow> GAMEWIN_LINES s = 1 \<and> pos_y (car_pos (car s)) = 0)))"
proof (intro conjI impI)
  assume b: "game_borders (game s)"
  then show "car_pos (car (car_move s)) \<noteq> car_pos (car s)"
    by (cases "car_direction (car s)") (auto simp: car_go_defs Let_def dest: arg_cong [of _ _ pos_x] arg_cong [of _ _ pos_y])
  from b show "car_pos (car (car_move s)) =
          (case car_direction (car s) of
             DOWN \<Rightarrow> (car_pos (car s))\<lparr>pos_y := pos_y (car_pos (car s)) + 1\<rparr>
           | LEFT \<Rightarrow> (car_pos (car s))\<lparr>pos_x := pos_x (car_pos (car s)) - 1\<rparr>
           | RIGHT \<Rightarrow> (car_pos (car s))\<lparr>pos_x := pos_x (car_pos (car s)) + 1\<rparr>
           | UP \<Rightarrow> (car_pos (car s))\<lparr>pos_y := pos_y (car_pos (car s)) - 1\<rparr>)"
    by (cases "car_direction (car s)") (simp_all add: car_go_defs Let_def)
next
  assume w: "curses_wgetch e Gamewin wch (game_update_screen s0) = Inr (r, wch1, s)"
  from game_loop_car_synced [OF w]
  show sync: "car_old_pos (car s) = car_pos (car s)" .
  show "(\<not> car_position_changed (car_move s)) =
            (\<not> game_borders (game s)
             \<and> (case car_direction (car s) of
                   DOWN \<Rightarrow> GAMEWIN_LINES s = 1 \<and> pos_y (car_pos (car s)) = 0
                 | LEFT \<Rightarrow> GAMEWIN_COLS s = 1 \<and> pos_x (car_pos (car s)) = 0
                 | RIGHT \<Rightarrow> GAMEWIN_COLS s = 1 \<and> pos_x (car_pos (car s)) = 0
                 | UP \<Rightarrow> GAMEWIN_LINES s = 1 \<and> pos_y (car_pos (car s)) = 0))"
    using sync
    by (cases "car_direction (car s)") (auto simp: car_go_defs car_position_changed_def Let_def)
  assume "game_borders (game s)"
  with sync show "car_position_changed (car_move s)"
    by (cases "car_direction (car s)") (simp_all add: car_go_defs car_position_changed_def Let_def)
qed

theorem bordered_move_changes_position_witness:
  "game_borders (game ex_after_tick_read)
   \<and> curses_wgetch ex_env Gamewin 0 (game_update_screen ex_tick_state)
       = Inr (ERR, 0, ex_after_tick_read)
   \<and> car_pos (car ex_after_tick_read) = \<lparr>pos_x = 38, pos_y = 10\<rparr>
   \<and> car_old_pos (car ex_after_tick_read) = \<lparr>pos_x = 38, pos_y = 10\<rparr>
   \<and> car_pos (car (car_move ex_after_tick_read)) = \<lparr>pos_x = 39, pos_y = 10\<rparr>
   \<and> car_position_changed (car_move ex_after_tick_read)"
  using bordered_move_changes_position
          [of ex_after_tick_read ex_env 0 ex_tick_state ERR 0]
        ex_tick_read
  by (simp add: ex_defs)

end
